theory Spec2Isabelle
  imports Main "HOL-Library.Char_ord" "HOL-Library.List_Lexorder"
begin

section \<open>The world outside the facade\<close>

text \<open>
  \<^verbatim>\<open>gitoper.py\<close> (Python 2) is a facade over the external \<^verbatim>\<open>git\<close> program. Every
  query is one call of \<^verbatim>\<open>subprocess.check_output(argv, stderr=self._errfile)\<close>. The
  program itself is not part of the source, so it is a parameter: given the invocations
  made so far and the argument vector, it either cannot be launched or exits with a
  return code, having written its standard output and its diagnostic output.
\<close>

datatype outcome =
    Exited int string string  \<comment> \<open>return code, standard output, diagnostic output\<close>
  | NotLaunched               \<comment> \<open>the program could not be started\<close>

datatype exc =
    CalledProcessError int "string list"  \<comment> \<open>return code, argument vector\<close>
  | OSError
  | IOError
  | AttributeError
  | IndexError
  | ValueError
  | OverflowError
  | TypeError

text \<open>
  \<open>str_error\<close> is Python's \<^verbatim>\<open>str(e)\<close> of a \<^verbatim>\<open>CalledProcessError\<close>; \<open>can_open\<close> says
  whether \<^verbatim>\<open>open(errpath, "w+", 0)\<close> succeeds.
\<close>

record world =
  git :: "string list list \<Rightarrow> string list \<Rightarrow> outcome"
  str_error :: "int \<Rightarrow> string list \<Rightarrow> string"
  can_open :: "string \<Rightarrow> bool"

text \<open>
  What \<^verbatim>\<open>cached_command\<close> returns and stores: the text output, \<^verbatim>\<open>True\<close>/\<^verbatim>\<open>False\<close>,
  or \<^verbatim>\<open>None\<close>.
\<close>

datatype pyval = PyStr string | PyBool bool | PyNone

text \<open>
  The error file receives the diagnostic output of the external program (redirected by
  \<^verbatim>\<open>stderr=self._errfile\<close>) and the messages the facade writes itself
  (\<^verbatim>\<open>self._errfile.write\<close>); an entry records which of the two it is.
\<close>

datatype sink_entry = ToolDiag string | Written string

fun is_Written :: "sink_entry \<Rightarrow> bool" where
  "is_Written (Written m) = True"
| "is_Written (ToolDiag d) = False"

record process =
  calls :: "string list list"  \<comment> \<open>the argument vectors handed to \<^verbatim>\<open>check_output\<close>, in order\<close>
  stderr :: "string list"      \<comment> \<open>\<^verbatim>\<open>sys.stderr.write\<close>\<close>
  stdout :: "string list"      \<comment> \<open>the lines of \<^verbatim>\<open>print\<close>\<close>

record gitops = process +
  repo :: string
  gitrepo :: string
  errfile :: "sink_entry list"
  cache :: "string \<rightharpoonup> pyval"
  caching :: bool
  trees :: "string \<rightharpoonup> string set"
  sizes :: "string \<rightharpoonup> (string \<rightharpoonup> int)"
  years :: "int list"

section \<open>Python string helpers\<close>

text \<open>\<^verbatim>\<open>sep.join(xs)\<close>\<close>

fun join :: "string \<Rightarrow> string list \<Rightarrow> string" where
  "join sep [] = []"
| "join sep [x] = x"
| "join sep (x # y # ys) = x @ sep @ join sep (y # ys)"

text \<open>\<^verbatim>\<open>s.split(c)\<close> for a one-character separator: never empty, keeps empty fields.\<close>

fun split_sep :: "char \<Rightarrow> string \<Rightarrow> string list" where
  "split_sep c [] = [[]]"
| "split_sep c (x # xs) =
     (if x = c then [] # split_sep c xs
      else (case split_sep c xs of
              [] \<Rightarrow> [[x]]
            | h # t \<Rightarrow> (x # h) # t))"

text \<open>
  \<^verbatim>\<open>s.splitlines()\<close> of a Python 2 byte string: a line ends at \<^verbatim>\<open>\n\<close>, \<^verbatim>\<open>\r\<close> or
  \<^verbatim>\<open>\r\n\<close>; the terminators are dropped and a trailing terminator opens no line.
\<close>

fun splitlines_acc :: "string \<Rightarrow> string \<Rightarrow> string list" where
  "splitlines_acc cur [] = (if cur = [] then [] else [rev cur])"
| "splitlines_acc cur (c # cs) =
     (if c = CHR 0x0A then rev cur # splitlines_acc [] cs
      else if c = CHR 0x0D then
        (case cs of
           [] \<Rightarrow> [rev cur]
         | d # ds \<Rightarrow>
             if d = CHR 0x0A then rev cur # splitlines_acc [] ds
             else rev cur # splitlines_acc [] (d # ds))
      else splitlines_acc (c # cur) cs)"

definition splitlines :: "string \<Rightarrow> string list" where
  "splitlines s = splitlines_acc [] s"

text \<open>\<^verbatim>\<open>s.strip()\<close>: the six ASCII whitespace characters are removed at both ends.\<close>

definition is_space :: "char \<Rightarrow> bool" where
  "is_space c \<longleftrightarrow> c \<in> set [CHR '' '', CHR 0x09, CHR 0x0A, CHR 0x0B, CHR 0x0C, CHR 0x0D]"

definition strip :: "string \<Rightarrow> string" where
  "strip s = rev (dropWhile is_space (rev (dropWhile is_space s)))"

text \<open>
  A method of \<^verbatim>\<open>str\<close> called on what \<^verbatim>\<open>cached_command\<close> returned: on \<^verbatim>\<open>None\<close>
  or a boolean the attribute lookup raises \<^verbatim>\<open>AttributeError\<close>.
\<close>

fun str_method :: "(string \<Rightarrow> 'a) \<Rightarrow> pyval \<Rightarrow> exc + 'a" where
  "str_method f (PyStr s) = Inr (f s)"
| "str_method f (PyBool b) = Inl AttributeError"
| "str_method f PyNone = Inl AttributeError"

section \<open>The command cache\<close>

text \<open>
  \<^verbatim>\<open>check_output(argv, stderr=self._errfile)\<close>: the invocation is recorded, the
  program's diagnostic output reaches the error file, and a non-zero return code raises
  \<^verbatim>\<open>CalledProcessError\<close>.
\<close>

definition redirect :: "string \<Rightarrow> sink_entry list \<Rightarrow> sink_entry list" where
  "redirect diag sink = (if diag = [] then sink else sink @ [ToolDiag diag])"

definition check_output :: "world \<Rightarrow> string list \<Rightarrow> gitops \<Rightarrow> (exc + string) \<times> gitops" where
  "check_output w argv s =
     (let s1 = s\<lparr>calls := calls s @ [argv]\<rparr> in
      case git w (calls s) argv of
        NotLaunched \<Rightarrow> (Inl OSError, s1)
      | Exited rc out diag \<Rightarrow>
          (let s2 = s1\<lparr>errfile := redirect diag (errfile s1)\<rparr> in
           if rc = 0 then (Inr out, s2)
           else (Inl (CalledProcessError rc argv), s2)))"

definition command_argv :: "gitops \<Rightarrow> string list \<Rightarrow> string list" where
  "command_argv s lst = [''git'', ''--git-dir'', gitrepo s] @ lst"

definition command_key :: "gitops \<Rightarrow> string list \<Rightarrow> string" where
  "command_key s lst = join '' '' (command_argv s lst)"

definition store :: "string \<Rightarrow> pyval \<Rightarrow> gitops \<Rightarrow> (exc + pyval) \<times> gitops" where
  "store command out s =
     (Inr out, if caching s then s\<lparr>cache := (cache s)(command \<mapsto> out)\<rparr> else s)"

text \<open>\<^verbatim>\<open>"Error calling %s: %s" % (command, str(e))\<close>\<close>

definition error_message :: "world \<Rightarrow> string \<Rightarrow> int \<Rightarrow> string list \<Rightarrow> string" where
  "error_message w command rc cmd = ''Error calling '' @ command @ '': '' @ str_error w rc cmd"

definition cached_command :: "world \<Rightarrow> string list \<Rightarrow> bool \<Rightarrow> gitops \<Rightarrow> (exc + pyval) \<times> gitops" where
  "cached_command w lst return_exit_code s =
     (let list' = command_argv s lst;
          command = join '' '' list'
      in case cache s command of
           Some v \<Rightarrow> (Inr v, s)
         | None \<Rightarrow>
             (case check_output w list' s of
                (Inr out, s1) \<Rightarrow>
                  store command (if return_exit_code then PyBool True else PyStr out) s1
              | (Inl (CalledProcessError rc cmd), s1) \<Rightarrow>
                  if return_exit_code then store command (PyBool False) s1
                  else
                    (let message = error_message w command rc cmd;
                         s2 = s1\<lparr>stderr := stderr s1 @ [message],
                                 errfile := errfile s1 @ [Written message]\<rparr>
                     in store command PyNone s2)
              | (Inl e, s1) \<Rightarrow> (Inl e, s1)))"

text \<open>
  A \<^verbatim>\<open>str\<close> method applied to the result of a command:
  \<^verbatim>\<open>self.cached_command(...).splitlines()\<close>.
\<close>

definition then_str :: "(string \<Rightarrow> 'a) \<Rightarrow> (exc + pyval) \<times> gitops \<Rightarrow> (exc + 'a) \<times> gitops" where
  "then_str f r = (case r of (Inl e, s) \<Rightarrow> (Inl e, s) | (Inr v, s) \<Rightarrow> (str_method f v, s))"

text \<open>
  \<^verbatim>\<open>try: ... except CalledProcessError as e: print "<label>%s" % str(e); return dflt\<close>.
  Any other exception passes through.
\<close>

definition except_CalledProcessError ::
  "world \<Rightarrow> string \<Rightarrow> 'a \<Rightarrow> (exc + 'a) \<times> gitops \<Rightarrow> (exc + 'a) \<times> gitops" where
  "except_CalledProcessError w label dflt r =
     (case r of
        (Inl (CalledProcessError rc cmd), s) \<Rightarrow>
          (Inr dflt, s\<lparr>stdout := stdout s @ [label @ str_error w rc cmd]\<rparr>)
      | (Inl e, s) \<Rightarrow> (Inl e, s)
      | (Inr v, s) \<Rightarrow> (Inr v, s))"

section \<open>The tree model\<close>

text \<open>
  One line of \<^verbatim>\<open>git ls-tree\<close>, as \<^verbatim>\<open>fill_trees\<close> reads it:
  \<^verbatim>\<open>splitted = cont.split(" ")\<close>, \<^verbatim>\<open>path = splitted[-1].split("\t")[-1]\<close>, and the
  type is \<^verbatim>\<open>splitted[1]\<close>, which raises \<^verbatim>\<open>IndexError\<close> on a line without a space.
  \<open>split_sep\<close> never returns the empty list, so \<^verbatim>\<open>[-1]\<close> is \<open>last\<close>.
\<close>

definition line_path :: "string \<Rightarrow> string" where
  "line_path cont = last (split_sep (CHR 0x09) (last (split_sep (CHR '' '') cont)))"

definition line_type :: "string \<Rightarrow> exc + string" where
  "line_type cont =
     (case split_sep (CHR '' '') cont of
        a # t # rest \<Rightarrow> Inr t
      | _ \<Rightarrow> Inl IndexError)"

text \<open>The loop of \<^verbatim>\<open>fill_trees\<close>: \<open>known\<close> is \<^verbatim>\<open>self._trees[commit]\<close>, \<open>acc\<close> is \<^verbatim>\<open>trees\<close>.\<close>

fun collect_trees :: "string set \<Rightarrow> string list \<Rightarrow> string list \<Rightarrow> exc + string list" where
  "collect_trees known acc [] = Inr acc"
| "collect_trees known acc (cont # rest) =
     (let path = line_path cont in
      case line_type cont of
        Inl e \<Rightarrow> Inl e
      | Inr t \<Rightarrow>
          if t = ''tree'' \<and> path \<notin> known then collect_trees known (acc @ [path]) rest
          else collect_trees known acc rest)"

definition known_dirs :: "gitops \<Rightarrow> string \<Rightarrow> string set" where
  "known_dirs s commit = (case trees s commit of None \<Rightarrow> {} | Some dirs \<Rightarrow> dirs)"

definition fill_trees :: "string \<Rightarrow> string list \<Rightarrow> gitops \<Rightarrow> (exc + unit) \<times> gitops" where
  "fill_trees commit contents s =
     (let s1 = (if trees s commit = None then s\<lparr>trees := (trees s)(commit \<mapsto> {[]})\<rparr> else s) in
      case collect_trees (known_dirs s1 commit) [] contents of
        Inl e \<Rightarrow> (Inl e, s1)
      | Inr new \<Rightarrow>
          (Inr (), s1\<lparr>trees := (trees s1)(commit \<mapsto> known_dirs s1 commit \<union> set new)\<rparr>))"

definition is_dir :: "world \<Rightarrow> string \<Rightarrow> string \<Rightarrow> gitops \<Rightarrow> (exc + bool) \<times> gitops" where
  "is_dir w commit path s =
     (case trees s commit of
        Some dirs \<Rightarrow> (Inr (path \<in> dirs), s)
      | None \<Rightarrow>
          (case then_str strip
                  (cached_command w
                     [''cat-file'', ''-t'', ''--allow-unknown-type'', commit @ '':'' @ path]
                     False s) of
             (Inl (CalledProcessError rc cmd), s1) \<Rightarrow> (Inr False, s1)
           | (Inl e, s1) \<Rightarrow> (Inl e, s1)
           | (Inr object_type, s1) \<Rightarrow> (Inr (object_type = ''tree''), s1)))"

section \<open>The repository facade\<close>

definition line_name :: "string \<Rightarrow> string" where
  "line_name c = last (split_sep (CHR ''/'') (line_path c))"

definition directory_contents ::
  "world \<Rightarrow> string \<Rightarrow> string \<Rightarrow> gitops \<Rightarrow> (exc + string list) \<times> gitops" where
  "directory_contents w commit path s =
     (let path' = (if path \<noteq> [] then path @ ''/'' else path) in
      except_CalledProcessError w ''directory_contents error: '' []
        (case then_str splitlines (cached_command w [''ls-tree'', commit, path'] False s) of
           (Inl e, s1) \<Rightarrow> (Inl e, s1)
         | (Inr contents, s1) \<Rightarrow>
             (case fill_trees commit contents s1 of
                (Inl e, s2) \<Rightarrow> (Inl e, s2)
              | (Inr u, s2) \<Rightarrow> (Inr (map line_name contents), s2))))"

definition file_contents :: "world \<Rightarrow> string \<Rightarrow> string \<Rightarrow> gitops \<Rightarrow> (exc + string) \<times> gitops" where
  "file_contents w commit path s =
     check_output w [''git'', ''--git-dir'', gitrepo s, ''show'', commit @ '':'' @ path] s"

definition sizes_of :: "gitops \<Rightarrow> string \<Rightarrow> (string \<rightharpoonup> int)" where
  "sizes_of s commit = (case sizes s commit of None \<Rightarrow> Map.empty | Some m \<Rightarrow> m)"

definition file_size :: "world \<Rightarrow> string \<Rightarrow> string \<Rightarrow> gitops \<Rightarrow> (exc + int) \<times> gitops" where
  "file_size w commit path s =
     (let s1 = (if sizes s commit = None then s\<lparr>sizes := (sizes s)(commit \<mapsto> Map.empty)\<rparr> else s) in
      case sizes_of s1 commit path of
        Some n \<Rightarrow> (Inr n, s1)
      | None \<Rightarrow>
          (case file_contents w commit path s1 of
             (Inl e, s2) \<Rightarrow> (Inl e, s2)
           | (Inr contents, s2) \<Rightarrow>
               (let size = (if contents \<noteq> [] then int (length contents) else 0) in
                (Inr size,
                 s2\<lparr>sizes := (sizes s2)(commit \<mapsto> (sizes_of s2 commit)(path \<mapsto> size))\<rparr>))))"

subsection \<open>Year range\<close>

text \<open>
  \<^verbatim>\<open>int(s)\<close> of a string: surrounding whitespace is dropped, one sign is allowed, and
  what remains must be a non-empty run of decimal digits. \<^verbatim>\<open>int(None)\<close> raises
  \<^verbatim>\<open>TypeError\<close>, and a boolean counts as 1 or 0.
\<close>

definition is_digit :: "char \<Rightarrow> bool" where
  "is_digit c \<longleftrightarrow> CHR ''0'' \<le> c \<and> c \<le> CHR ''9''"

definition digit_val :: "char \<Rightarrow> nat" where
  "digit_val c = of_char c - 48"

definition digits_val :: "string \<Rightarrow> nat" where
  "digits_val ds = foldl (\<lambda>acc c. 10 * acc + digit_val c) 0 ds"

definition py_int :: "string \<Rightarrow> exc + int" where
  "py_int s =
     (let t = strip s;
          neg = (t \<noteq> [] \<and> hd t = CHR ''-'');
          ds = (if t \<noteq> [] \<and> (hd t = CHR ''-'' \<or> hd t = CHR ''+'') then tl t else t)
      in if ds \<noteq> [] \<and> list_all is_digit ds
         then Inr (if neg then - int (digits_val ds) else int (digits_val ds))
         else Inl ValueError)"

text \<open>
  \<^verbatim>\<open>_first_year\<close>: \<^verbatim>\<open>int(sorted(first_years)[0])\<close>. \<^verbatim>\<open>sorted\<close> orders the lines as
  strings, that is lexicographically by character code; \<^verbatim>\<open>[0]\<close> of an empty list
  raises \<^verbatim>\<open>IndexError\<close>.
\<close>

definition first_year :: "world \<Rightarrow> gitops \<Rightarrow> (exc + int) \<times> gitops" where
  "first_year w s =
     (case then_str splitlines
             (cached_command w
                [''log'', ''--max-parents=0'', ''--date=format:%Y'', ''--pretty=%ad'', ''master'']
                False s) of
        (Inl e, s1) \<Rightarrow> (Inl e, s1)
      | (Inr first_years, s1) \<Rightarrow>
          (case sort first_years of
             [] \<Rightarrow> (Inl IndexError, s1)
           | y # ys \<Rightarrow> (py_int y, s1)))"

definition last_year :: "world \<Rightarrow> gitops \<Rightarrow> (exc + int) \<times> gitops" where
  "last_year w s =
     (case cached_command w
             [''log'', ''-n'', ''1'', ''--date=format:%Y'', ''--pretty=%ad'', ''master'']
             False s of
        (Inl e, s1) \<Rightarrow> (Inl e, s1)
      | (Inr (PyStr out), s1) \<Rightarrow> (py_int out, s1)
      | (Inr (PyBool b), s1) \<Rightarrow> (Inr (if b then 1 else 0), s1)
      | (Inr PyNone, s1) \<Rightarrow> (Inl TypeError, s1))"

text \<open>\<^verbatim>\<open>os.path.join(repo, '.git')\<close> of \<^verbatim>\<open>posixpath\<close>, for two components.\<close>

definition os_path_join :: "string \<Rightarrow> string \<Rightarrow> string" where
  "os_path_join a b =
     (if b \<noteq> [] \<and> hd b = CHR ''/'' then b
      else if a = [] \<or> last a = CHR ''/'' then a @ b
      else a @ ''/'' @ b)"

text \<open>
  \<^verbatim>\<open>__init__\<close>. The streams and the invocation log of the process exist before the
  object does. \<^verbatim>\<open>open(errpath, "w+", 0)\<close> truncates the file. \<^verbatim>\<open>self.years\<close> is
  assigned last: \<^verbatim>\<open>range(first, last + 1)\<close> is the list from first to last. When a step
  raises, construction is abandoned and the record returned only shows what had happened
  to the process by then.
\<close>

definition init :: "world \<Rightarrow> string \<Rightarrow> bool \<Rightarrow> string \<Rightarrow> process \<Rightarrow> (exc + unit) \<times> gitops" where
  "init w repo' caching' errpath p =
     (let s0 = \<lparr>calls = calls p, stderr = stderr p, stdout = stdout p,
                repo = repo', gitrepo = os_path_join repo' ''.git'', errfile = [],
                cache = Map.empty, caching = caching', trees = Map.empty,
                sizes = Map.empty, years = []\<rparr>
      in if \<not> can_open w errpath then (Inl IOError, s0)
         else
           (case first_year w s0 of
              (Inl e, s1) \<Rightarrow> (Inl e, s1)
            | (Inr first_y, s1) \<Rightarrow>
                (case last_year w s1 of
                   (Inl e, s2) \<Rightarrow> (Inl e, s2)
                 | (Inr last_y, s2) \<Rightarrow> (Inr (), s2\<lparr>years := [first_y..last_y]\<rparr>))))"

subsection \<open>Refs\<close>

text \<open>
  \<^verbatim>\<open>branches\<close>, \<^verbatim>\<open>tags\<close>, \<^verbatim>\<open>last_commit_of_branch\<close> and \<^verbatim>\<open>commit_of_tag\<close> wrap
  their query in \<^verbatim>\<open>try ... except CalledProcessError\<close>; \<open>None\<close> is Python's
  \<^verbatim>\<open>None\<close>.
\<close>

definition for_each_ref ::
  "world \<Rightarrow> string \<Rightarrow> string \<Rightarrow> gitops \<Rightarrow> (exc + string list option) \<times> gitops" where
  "for_each_ref w label prefix s =
     except_CalledProcessError w label None
       (case then_str splitlines
               (cached_command w
                  [''for-each-ref'', ''--format=%(objectname) %(refname)'', prefix] False s) of
          (Inl e, s1) \<Rightarrow> (Inl e, s1)
        | (Inr refs, s1) \<Rightarrow> (Inr (Some (map strip refs)), s1))"

definition branches :: "world \<Rightarrow> gitops \<Rightarrow> (exc + string list option) \<times> gitops" where
  "branches w s = for_each_ref w ''branches error: '' ''refs/heads/'' s"

definition tags :: "world \<Rightarrow> gitops \<Rightarrow> (exc + string list option) \<times> gitops" where
  "tags w s = for_each_ref w ''tags error: '' ''refs/tags/'' s"

definition rev_list_1 ::
  "world \<Rightarrow> string \<Rightarrow> string \<Rightarrow> gitops \<Rightarrow> (exc + string option) \<times> gitops" where
  "rev_list_1 w label ref s =
     except_CalledProcessError w label None
       (case then_str strip (cached_command w [''rev-list'', ''-n'', ''1'', ref, ''--''] False s) of
          (Inl e, s1) \<Rightarrow> (Inl e, s1)
        | (Inr commit, s1) \<Rightarrow> (Inr (Some commit), s1))"

definition last_commit_of_branch ::
  "world \<Rightarrow> string \<Rightarrow> gitops \<Rightarrow> (exc + string option) \<times> gitops" where
  "last_commit_of_branch w branch s = rev_list_1 w ''last commit of branch error: '' branch s"

definition commit_of_tag :: "world \<Rightarrow> string \<Rightarrow> gitops \<Rightarrow> (exc + string option) \<times> gitops" where
  "commit_of_tag w tag s = rev_list_1 w ''commit of tag error: '' tag s"

definition commit_log :: "world \<Rightarrow> string \<Rightarrow> gitops \<Rightarrow> (exc + string option) \<times> gitops" where
  "commit_log w commit s =
     except_CalledProcessError w ''commit_log error: '' None
       (case check_output w [''git'', ''--git-dir'', gitrepo s, ''log'', commit] s of
          (Inl e, s1) \<Rightarrow> (Inl e, s1)
        | (Inr out, s1) \<Rightarrow> (Inr (Some out), s1))"

definition commit_parents :: "string \<Rightarrow> gitops \<Rightarrow> (exc + string list) \<times> gitops" where
  "commit_parents commit s = (Inr [], s)"

definition commit_descendants :: "string \<Rightarrow> gitops \<Rightarrow> (exc + string list) \<times> gitops" where
  "commit_descendants commit s = (Inr [], s)"

definition commit_names :: "string \<Rightarrow> gitops \<Rightarrow> (exc + string list) \<times> gitops" where
  "commit_names commit s = (Inr [], s)"

subsection \<open>Commits of a day\<close>

text \<open>
  \<^verbatim>\<open>datetime.date(y, m, d)\<close> raises \<^verbatim>\<open>ValueError\<close> outside the calendar of the years
  1 to 9999; subtracting a day from the first of them raises \<^verbatim>\<open>OverflowError\<close>.
\<close>

datatype date = Date int int int

definition is_leap :: "int \<Rightarrow> bool" where
  "is_leap y \<longleftrightarrow> y mod 4 = 0 \<and> (y mod 100 \<noteq> 0 \<or> y mod 400 = 0)"

definition days_in_month :: "int \<Rightarrow> int \<Rightarrow> int" where
  "days_in_month y m =
     (if m = 2 then (if is_leap y then 29 else 28)
      else if m = 4 \<or> m = 6 \<or> m = 9 \<or> m = 11 then 30
      else 31)"

definition mk_date :: "int \<Rightarrow> int \<Rightarrow> int \<Rightarrow> exc + date" where
  "mk_date y m d =
     (if 1 \<le> y \<and> y \<le> 9999 \<and> 1 \<le> m \<and> m \<le> 12 \<and> 1 \<le> d \<and> d \<le> days_in_month y m
      then Inr (Date y m d) else Inl ValueError)"

fun minus_one_day :: "date \<Rightarrow> exc + date" where
  "minus_one_day (Date y m d) =
     (if 1 < d then Inr (Date y m (d - 1))
      else if 1 < m then Inr (Date y (m - 1) (days_in_month y (m - 1)))
      else if 1 < y then Inr (Date (y - 1) 12 31)
      else Inl OverflowError)"

text \<open>\<^verbatim>\<open>'%0<width>d' % n\<close>: decimal digits, zero-padded after the sign to the width.\<close>

fun dec :: "nat \<Rightarrow> string" where
  "dec n = (if n < 10 then [char_of (48 + n)] else dec (n div 10) @ [char_of (48 + n mod 10)])"

definition fmt_0d :: "nat \<Rightarrow> int \<Rightarrow> string" where
  "fmt_0d width n =
     (if n < 0
      then (let ds = dec (nat (- n)) in ''-'' @ replicate (width - 1 - length ds) (CHR ''0'') @ ds)
      else (let ds = dec (nat n) in replicate (width - length ds) (CHR ''0'') @ ds))"

definition date_str :: "int \<Rightarrow> int \<Rightarrow> int \<Rightarrow> string" where
  "date_str y m d = fmt_0d 4 y @ ''-'' @ fmt_0d 2 m @ ''-'' @ fmt_0d 2 d"

definition commits ::
  "world \<Rightarrow> int \<Rightarrow> int \<Rightarrow> int \<Rightarrow> gitops \<Rightarrow> (exc + string list) \<times> gitops" where
  "commits w y m d s =
     (case mk_date y m d of
        Inl e \<Rightarrow> (Inl e, s)
      | Inr end_date \<Rightarrow>
          (case minus_one_day end_date of
             Inl e \<Rightarrow> (Inl e, s)
           | Inr (Date sy sm sd) \<Rightarrow>
               (case then_str splitlines
                       (cached_command w
                          [''log'', ''--after'', date_str sy sm sd,
                           ''--before'', date_str y m d, ''--pretty=%H''] False s) of
                  (Inl e, s1) \<Rightarrow> (Inl e, s1)
                | (Inr cs, s1) \<Rightarrow> (Inr (map strip cs), s1))))"

section \<open>Sequences of method calls\<close>

text \<open>
  A client of the facade calls its methods one after another on the same object. \<open>call\<close>
  names a method with its arguments, \<open>perform\<close> gives the state it leaves (whether it
  returned or raised), and \<open>perform_all\<close> runs a sequence.
\<close>

datatype call =
    CachedCommand "string list" bool
  | FillTrees string "string list"
  | Branches
  | Tags
  | Commits int int int
  | LastCommitOfBranch string
  | CommitOfTag string
  | CommitLog string
  | CommitParents string
  | CommitDescendants string
  | CommitNames string
  | DirectoryContents string string
  | IsDir string string
  | FileContents string string
  | FileSize string string

fun perform :: "world \<Rightarrow> call \<Rightarrow> gitops \<Rightarrow> gitops" where
  "perform w (CachedCommand lst b) s = snd (cached_command w lst b s)"
| "perform w (FillTrees commit contents) s = snd (fill_trees commit contents s)"
| "perform w Branches s = snd (branches w s)"
| "perform w Tags s = snd (tags w s)"
| "perform w (Commits y m d) s = snd (commits w y m d s)"
| "perform w (LastCommitOfBranch b) s = snd (last_commit_of_branch w b s)"
| "perform w (CommitOfTag t) s = snd (commit_of_tag w t s)"
| "perform w (CommitLog c) s = snd (commit_log w c s)"
| "perform w (CommitParents c) s = snd (commit_parents c s)"
| "perform w (CommitDescendants c) s = snd (commit_descendants c s)"
| "perform w (CommitNames c) s = snd (commit_names c s)"
| "perform w (DirectoryContents c p) s = snd (directory_contents w c p s)"
| "perform w (IsDir c p) s = snd (is_dir w c p s)"
| "perform w (FileContents c p) s = snd (file_contents w c p s)"
| "perform w (FileSize c p) s = snd (file_size w c p s)"

fun perform_all :: "world \<Rightarrow> call list \<Rightarrow> gitops \<Rightarrow> gitops" where
  "perform_all w [] s = s"
| "perform_all w (c # cs) s = perform_all w cs (perform w c s)"

section \<open>Auxiliary notions for the proofs\<close>

text \<open>
  \<open>extends s s'\<close>: the state \<open>s'\<close> knows everything \<open>s\<close> knew. The caching flag and the
  repository path are the same, every cache entry, known directory and stored size of
  \<open>s\<close> is still there, the invocation log has only grown, and without caching the cache is
  the same.
\<close>

definition extends :: "gitops \<Rightarrow> gitops \<Rightarrow> bool" where
  "extends s s' \<longleftrightarrow>
     caching s' = caching s \<and> gitrepo s' = gitrepo s \<and>
     cache s \<subseteq>\<^sub>m cache s' \<and> (\<not> caching s \<longrightarrow> cache s' = cache s) \<and>
     (\<exists>new. calls s' = calls s @ new) \<and>
     (\<forall>c dirs. trees s c = Some dirs \<longrightarrow> (\<exists>dirs'. trees s' c = Some dirs' \<and> dirs \<subseteq> dirs')) \<and>
     (\<forall>c p n. sizes_of s c p = Some n \<longrightarrow> sizes_of s' c p = Some n)"

text \<open>
  A listing as the specification describes it: a sequence of entries, each with a mode,
  an object type, an object hash and a path, printed as the line
  \<^verbatim>\<open><mode> <type> <hash>\t<path>\<close>. The directory-typed entries are those of type
  \<^verbatim>\<open>tree\<close>; \<open>directory_paths\<close> collects their paths from the entries themselves, without
  reading any line. \<open>plain_entry\<close> holds of an entry whose fields contain no space and
  whose hash and path contain no tab.
\<close>

datatype entry = Entry string string string string  \<comment> \<open>mode, type, hash, path\<close>



definition ls_tree_line :: "string \<Rightarrow> string \<Rightarrow> string \<Rightarrow> string \<Rightarrow> string" where
  "ls_tree_line mode typ hash path = mode @ '' '' @ typ @ '' '' @ hash @ [CHR 0x09] @ path"

fun entry_line :: "entry \<Rightarrow> string" where
  "entry_line (Entry mode typ hash path) = ls_tree_line mode typ hash path"



text \<open>
  \<open>fills\<close> is a sequence of calls of \<^verbatim>\<open>fill_trees\<close> for one commit, one listing (its
  lines) each.
\<close>

fun fills :: "string \<Rightarrow> string list list \<Rightarrow> gitops \<Rightarrow> gitops" where
  "fills commit [] s = s"
| "fills commit (contents # rest) s = fills commit rest (snd (fill_trees commit contents s))"



definition spaced_listing :: "entry list" where
  "spaced_listing = [Entry ''040000'' ''tree'' ''4b825d'' ''my dir'']"

text \<open>
  A line that \<^verbatim>\<open>git log --date=format:%Y --pretty=%ad\<close> prints for a commit: the four
  digits of its year; \<open>year_of\<close> is the number they denote.
\<close>

definition year_line :: "string \<Rightarrow> bool" where
  "year_line l \<longleftrightarrow> length l = 4 \<and> list_all is_digit l"

definition year_of :: "string \<Rightarrow> int" where
  "year_of l = int (digits_val l)"

definition first_year_argv :: "string \<Rightarrow> string list" where
  "first_year_argv repo' =
     [''git'', ''--git-dir'', os_path_join repo' ''.git'',
      ''log'', ''--max-parents=0'', ''--date=format:%Y'', ''--pretty=%ad'', ''master'']"

definition last_year_argv :: "string \<Rightarrow> string list" where
  "last_year_argv repo' =
     [''git'', ''--git-dir'', os_path_join repo' ''.git'',
      ''log'', ''-n'', ''1'', ''--date=format:%Y'', ''--pretty=%ad'', ''master'']"


text \<open>
  A small repository for the concrete instances: root commits in 2016 and 2015, the
  latest commit in 2020, a tree \<^verbatim>\<open>v1\<close> with a directory \<^verbatim>\<open>src\<close> and a file
  \<^verbatim>\<open>README\<close>; every other query fails with return code 128.
\<close>

definition demo_world :: world where
  "demo_world =
     \<lparr>git = (\<lambda>history argv.
         if ''--max-parents=0'' \<in> set argv then Exited 0 (''2016'' @ [CHR 0x0A] @ ''2015'' @ [CHR 0x0A]) []
         else if ''-n'' \<in> set argv then Exited 0 (''2020'' @ [CHR 0x0A]) []
         else if ''ls-tree'' \<in> set argv \<and> ''v1'' \<in> set argv then
           Exited 0 (''040000 tree 4b825d'' @ [CHR 0x09] @ ''src'' @ [CHR 0x0A] @
                     ''100644 blob e69de2'' @ [CHR 0x09] @ ''README'' @ [CHR 0x0A]) []
         else if ''v1:README'' \<in> set argv then Exited 0 ''hello'' []
         else Exited 128 [] ''fatal: bad object''),
      str_error = (\<lambda>rc cmd. ''Command returned non-zero exit status''),
      can_open = (\<lambda>path. True)\<rparr>"

text \<open>The facade right after construction on that repository.\<close>

definition demo_state :: "bool \<Rightarrow> gitops" where
  "demo_state c =
     \<lparr>calls = [], stderr = [], stdout = [], repo = ''r'', gitrepo = ''r/.git'', errfile = [],
      cache = Map.empty, caching = c, trees = Map.empty, sizes = Map.empty,
      years = [2015, 2016, 2017, 2018, 2019, 2020]\<rparr>"


section \<open>Knowledge only grows\<close>

lemma extends_refl: "extends s s"
  by (simp add: extends_def)

lemma extends_trans:
  assumes a: "extends s s'" and b: "extends s' s''"
  shows "extends s s''"
proof -
  have c1: "caching s' = caching s" and g1: "gitrepo s' = gitrepo s"
    and m1: "cache s \<subseteq>\<^sub>m cache s'" and n1: "\<not> caching s \<longrightarrow> cache s' = cache s"
    and l1: "\<exists>new. calls s' = calls s @ new"
    and t1: "\<forall>c dirs. trees s c = Some dirs \<longrightarrow> (\<exists>dirs'. trees s' c = Some dirs' \<and> dirs \<subseteq> dirs')"
    and z1: "\<forall>c p n. sizes_of s c p = Some n \<longrightarrow> sizes_of s' c p = Some n"
    using a unfolding extends_def by blast+
  have c2: "caching s'' = caching s'" and g2: "gitrepo s'' = gitrepo s'"
    and m2: "cache s' \<subseteq>\<^sub>m cache s''" and n2: "\<not> caching s' \<longrightarrow> cache s'' = cache s'"
    and l2: "\<exists>new. calls s'' = calls s' @ new"
    and t2: "\<forall>c dirs. trees s' c = Some dirs \<longrightarrow> (\<exists>dirs'. trees s'' c = Some dirs' \<and> dirs \<subseteq> dirs')"
    and z2: "\<forall>c p n. sizes_of s' c p = Some n \<longrightarrow> sizes_of s'' c p = Some n"
    using b unfolding extends_def by blast+
  have m: "cache s \<subseteq>\<^sub>m cache s''"
    by (rule map_le_trans [OF m1 m2])
  have n: "\<not> caching s \<longrightarrow> cache s'' = cache s"
    using n1 n2 c1 by simp
  from l1 obtain x where x: "calls s' = calls s @ x" ..
  from l2 obtain y where y: "calls s'' = calls s' @ y" ..
  have l: "\<exists>new. calls s'' = calls s @ new"
    using x y by simp
  have t: "\<forall>c dirs. trees s c = Some dirs \<longrightarrow> (\<exists>dirs'. trees s'' c = Some dirs' \<and> dirs \<subseteq> dirs')"
  proof (intro allI impI)
    fix c dirs assume "trees s c = Some dirs"
    with t1 obtain d1 where d1: "trees s' c = Some d1" "dirs \<subseteq> d1" by blast
    with t2 obtain d2 where d2: "trees s'' c = Some d2" "d1 \<subseteq> d2" by blast
    from d1 d2 show "\<exists>dirs'. trees s'' c = Some dirs' \<and> dirs \<subseteq> dirs'" by blast
  qed
  have z: "\<forall>c p n. sizes_of s c p = Some n \<longrightarrow> sizes_of s'' c p = Some n"
    using z1 z2 by blast
  show ?thesis
    unfolding extends_def using c1 c2 g1 g2 m n l t z by simp
qed

lemma extends_calls: "extends s (s\<lparr>calls := calls s @ new\<rparr>)"
  by (simp add: extends_def sizes_of_def)

lemma extends_stdout: "extends s (s\<lparr>stdout := out\<rparr>)"
  by (simp add: extends_def sizes_of_def)

lemma extends_stderr: "extends s (s\<lparr>stderr := e\<rparr>)"
  by (simp add: extends_def sizes_of_def)

lemma extends_errfile: "extends s (s\<lparr>errfile := f\<rparr>)"
  by (simp add: extends_def sizes_of_def)

lemma extends_calls_errfile: "extends s (s\<lparr>calls := calls s @ new, errfile := f\<rparr>)"
  by (rule extends_trans [OF extends_calls extends_errfile])

lemma extends_calls_stderr_errfile:
  "extends s (s\<lparr>calls := calls s @ new, stderr := e, errfile := f\<rparr>)"
  by (rule extends_trans [OF extends_calls extends_trans [OF extends_stderr extends_errfile]])

lemma check_output_Exited:
  assumes "git w (calls s) argv = Exited rc out diag"
  shows "check_output w argv s =
     (if rc = 0 then Inr out else Inl (CalledProcessError rc argv),
      s\<lparr>calls := calls s @ [argv], errfile := redirect diag (errfile s)\<rparr>)"
  using assms by (simp add: check_output_def Let_def)

lemma check_output_NotLaunched:
  assumes "git w (calls s) argv = NotLaunched"
  shows "check_output w argv s = (Inl OSError, s\<lparr>calls := calls s @ [argv]\<rparr>)"
  using assms by (simp add: check_output_def Let_def)

lemma check_output_extends: "extends s (snd (check_output w argv s))"
  by (cases "git w (calls s) argv")
     (simp_all add: check_output_Exited check_output_NotLaunched extends_calls
        extends_calls_errfile)

lemma store_extends: "cache s k = None \<Longrightarrow> extends s (snd (store k v s))"
  by (auto simp: store_def extends_def sizes_of_def map_le_def)


subsection \<open>The command cache\<close>

lemma cached_command_hit:
  "cache s (command_key s lst) = Some v \<Longrightarrow> cached_command w lst b s = (Inr v, s)"
  by (simp add: cached_command_def command_key_def Let_def)

lemma cached_command_miss:
  assumes "cache s (command_key s lst) = None"
  shows "cached_command w lst b s =
     (case git w (calls s) (command_argv s lst) of
        NotLaunched \<Rightarrow> (Inl OSError, s\<lparr>calls := calls s @ [command_argv s lst]\<rparr>)
      | Exited rc out diag \<Rightarrow>
          if rc = 0 then
            store (command_key s lst) (if b then PyBool True else PyStr out)
              (s\<lparr>calls := calls s @ [command_argv s lst], errfile := redirect diag (errfile s)\<rparr>)
          else if b then
            store (command_key s lst) (PyBool False)
              (s\<lparr>calls := calls s @ [command_argv s lst], errfile := redirect diag (errfile s)\<rparr>)
          else
            store (command_key s lst) PyNone
              (s\<lparr>calls := calls s @ [command_argv s lst],
                 stderr := stderr s @
                   [error_message w (command_key s lst) rc (command_argv s lst)],
                 errfile := redirect diag (errfile s) @
                   [Written (error_message w (command_key s lst) rc (command_argv s lst))]\<rparr>))"
  using assms
  by (cases "git w (calls s) (command_argv s lst)")
     (simp_all add: cached_command_def command_key_def Let_def check_output_Exited
        check_output_NotLaunched)

lemma store_after_extends:
  assumes "cache s k = None" and "extends s s1" and "cache s1 = cache s"
  shows "extends s (snd (store k v s1))"
proof -
  have "cache s1 k = None" using assms by simp
  then have "extends s1 (snd (store k v s1))" by (rule store_extends)
  with assms(2) show ?thesis by (rule extends_trans)
qed

lemma cached_command_extends: "extends s (snd (cached_command w lst b s))"
proof (cases "cache s (command_key s lst)")
  case (Some v)
  then show ?thesis by (simp add: cached_command_hit extends_refl)
next
  case None
  show ?thesis
  proof (cases "git w (calls s) (command_argv s lst)")
    case NotLaunched
    then show ?thesis by (simp add: cached_command_miss [OF None] extends_calls)
  next
    case (Exited rc out diag)
    then show ?thesis
      by (simp add: cached_command_miss [OF None] store_after_extends [OF None]
            extends_calls_errfile extends_calls_stderr_errfile)
  qed
qed

lemma cached_command_never_CalledProcessError:
  "fst (cached_command w lst b s) \<noteq> Inl (CalledProcessError rc cmd)"
proof (cases "cache s (command_key s lst)")
  case (Some v)
  then show ?thesis by (simp add: cached_command_hit)
next
  case None
  show ?thesis
    by (cases "git w (calls s) (command_argv s lst)")
       (simp_all add: cached_command_miss [OF None] store_def)
qed

lemma command_key_cong: "gitrepo s' = gitrepo s \<Longrightarrow> command_key s' lst = command_key s lst"
  by (simp add: command_key_def command_argv_def)

lemma cached_command_stores:
  assumes "caching s" and "cached_command w lst b s = (Inr v, s1)"
  shows "cache s1 (command_key s lst) = Some v"
proof (cases "cache s (command_key s lst)")
  case (Some u)
  with assms show ?thesis by (simp add: cached_command_hit)
next
  case None
  show ?thesis
  proof (cases "git w (calls s) (command_argv s lst)")
    case NotLaunched
    with assms show ?thesis by (simp add: cached_command_miss [OF None])
  next
    case (Exited rc out diag)
    with assms show ?thesis
      by (auto simp: cached_command_miss [OF None] store_def split: if_splits)
  qed
qed

lemma cached_command_calls:
  "calls (snd (cached_command w lst b s)) =
     (if cache s (command_key s lst) = None then calls s @ [command_argv s lst] else calls s)"
proof (cases "cache s (command_key s lst)")
  case (Some u)
  then show ?thesis by (simp add: cached_command_hit)
next
  case None
  show ?thesis
    by (cases "git w (calls s) (command_argv s lst)")
       (simp_all add: cached_command_miss [OF None] store_def None)
qed

lemma cached_command_uncached:
  assumes "\<not> caching s"
  shows "cache (snd (cached_command w lst b s)) = cache s"
  using cached_command_extends [of s w lst b] assms by (simp add: extends_def)


lemma snd_then_str: "snd (then_str f r) = snd r"
  by (cases r) (simp add: then_str_def split: sum.splits)

lemma except_extends: "extends (snd r) (snd (except_CalledProcessError w label dflt r))"
  by (cases r)
     (simp add: except_CalledProcessError_def extends_refl extends_stdout
        split: sum.splits exc.splits)

lemma except_after_extends:
  "extends s (snd r) \<Longrightarrow> extends s (snd (except_CalledProcessError w label dflt r))"
  by (rule extends_trans [OF _ except_extends])

lemma then_str_cached_command_extends:
  "extends s (snd (then_str f (cached_command w lst b s)))"
  by (simp add: snd_then_str cached_command_extends)

lemma extends_trees_seed:
  "trees s commit = None \<Longrightarrow> extends s (s\<lparr>trees := (trees s)(commit \<mapsto> dirs)\<rparr>)"
  by (auto simp: extends_def sizes_of_def)

lemma extends_trees_grow:
  "known_dirs s commit \<subseteq> dirs \<Longrightarrow> extends s (s\<lparr>trees := (trees s)(commit \<mapsto> dirs)\<rparr>)"
  by (auto simp: extends_def sizes_of_def known_dirs_def)

lemma fill_trees_extends: "extends s (snd (fill_trees commit contents s))"
proof -
  define s1 where "s1 = (if trees s commit = None then s\<lparr>trees := (trees s)(commit \<mapsto> {[]})\<rparr> else s)"
  have a: "extends s s1"
    by (simp add: s1_def extends_refl extends_trees_seed)
  have b: "extends s1 (snd (fill_trees commit contents s))"
    by (cases "collect_trees (known_dirs s1 commit) [] contents")
       (simp_all add: fill_trees_def Let_def s1_def [symmetric] extends_refl extends_trees_grow)
  from a b show ?thesis by (rule extends_trans)
qed

lemma is_dir_extends: "extends s (snd (is_dir w commit path s))"
proof (cases "trees s commit")
  case (Some dirs)
  then show ?thesis by (simp add: is_dir_def extends_refl)
next
  case None
  have "snd (is_dir w commit path s) =
        snd (then_str strip (cached_command w
               [''cat-file'', ''-t'', ''--allow-unknown-type'', commit @ '':'' @ path] False s))"
    using None by (simp add: is_dir_def split: prod.splits sum.splits exc.splits)
  then show ?thesis by (simp add: then_str_cached_command_extends)
qed

lemma directory_contents_extends: "extends s (snd (directory_contents w commit path s))"
proof -
  define path' where "path' = (if path \<noteq> [] then path @ ''/'' else path)"
  define r where "r = then_str splitlines (cached_command w [''ls-tree'', commit, path'] False s)"
  have r: "extends s (snd r)"
    by (simp add: r_def then_str_cached_command_extends)
  have "extends s (snd (case r of
           (Inl e, s1) \<Rightarrow> (Inl e, s1)
         | (Inr contents, s1) \<Rightarrow>
             (case fill_trees commit contents s1 of
                (Inl e, s2) \<Rightarrow> (Inl e, s2)
              | (Inr u, s2) \<Rightarrow> (Inr (map line_name contents), s2))))"
  proof (cases r)
    case (Pair x s1)
    with r have s1: "extends s s1" by simp
    show ?thesis
    proof (cases x)
      case (Inl e)
      with Pair s1 show ?thesis by simp
    next
      case (Inr contents)
      have "extends s (snd (fill_trees commit contents s1))"
        by (rule extends_trans [OF s1 fill_trees_extends])
      with Pair Inr show ?thesis
        by (cases "fill_trees commit contents s1") (auto split: sum.splits)
    qed
  qed
  then show ?thesis
    unfolding directory_contents_def Let_def path'_def [symmetric] r_def [symmetric]
    by (rule except_after_extends)
qed

lemma file_contents_extends: "extends s (snd (file_contents w commit path s))"
  by (simp add: file_contents_def check_output_extends)

lemma extends_sizes_seed:
  "sizes s commit = None \<Longrightarrow> extends s (s\<lparr>sizes := (sizes s)(commit \<mapsto> Map.empty)\<rparr>)"
  by (auto simp: extends_def sizes_of_def)

lemma extends_sizes_add:
  "sizes_of s commit path = None \<Longrightarrow>
   extends s (s\<lparr>sizes := (sizes s)(commit \<mapsto> (sizes_of s commit)(path \<mapsto> n))\<rparr>)"
  by (auto simp: extends_def sizes_of_def split: option.splits)


lemma file_size_hit:
  "sizes_of s commit path = Some n \<Longrightarrow> file_size w commit path s = (Inr n, s)"
  by (auto simp: file_size_def sizes_of_def split: option.splits)

lemma sizes_of_seed:
  "sizes_of (if sizes s commit = None then s\<lparr>sizes := (sizes s)(commit \<mapsto> Map.empty)\<rparr> else s) c
     = sizes_of s c"
  by (auto simp: sizes_of_def)

lemma file_size_miss:
  assumes "sizes_of s commit path = None"
  shows "file_size w commit path s =
     (let s1 = (if sizes s commit = None then s\<lparr>sizes := (sizes s)(commit \<mapsto> Map.empty)\<rparr> else s) in
      case file_contents w commit path s1 of
        (Inl e, s2) \<Rightarrow> (Inl e, s2)
      | (Inr contents, s2) \<Rightarrow>
          (Inr (int (length contents)),
           s2\<lparr>sizes := (sizes s2)(commit \<mapsto> (sizes_of s2 commit)(path \<mapsto> int (length contents)))\<rparr>))"
proof -
  have "sizes_of (if sizes s commit = None then s\<lparr>sizes := (sizes s)(commit \<mapsto> Map.empty)\<rparr> else s)
          commit path = None"
    using assms by (simp add: sizes_of_seed)
  then show ?thesis
    by (simp add: file_size_def Let_def split: prod.splits sum.splits)
qed

lemma file_size_extends: "extends s (snd (file_size w commit path s))"
proof (cases "sizes_of s commit path")
  case (Some n)
  then show ?thesis by (simp add: file_size_hit extends_refl)
next
  case None
  define s1 where "s1 = (if sizes s commit = None then s\<lparr>sizes := (sizes s)(commit \<mapsto> Map.empty)\<rparr> else s)"
  have a: "extends s s1"
    by (simp add: s1_def extends_refl extends_sizes_seed)
  have n1: "sizes_of s1 commit path = None"
    using None by (simp add: s1_def sizes_of_seed)
  obtain r s2 where r: "file_contents w commit path s1 = (r, s2)"
    by (cases "file_contents w commit path s1")
  have b: "extends s1 s2"
    using file_contents_extends [of s1 w commit path] r by simp
  have s2: "sizes s2 = sizes s1"
    using r by (auto simp: file_contents_def check_output_def Let_def split: outcome.splits if_splits)
  then have n2: "sizes_of s2 commit path = None"
    using n1 by (simp add: sizes_of_def)
  have c: "extends s2 (snd (file_size w commit path s))"
    using r
    by (cases r)
       (simp_all add: file_size_miss [OF None] s1_def [symmetric] Let_def extends_refl
          extends_sizes_add [OF n2])
  from a b c show ?thesis by (blast intro: extends_trans)
qed

lemma for_each_ref_extends: "extends s (snd (for_each_ref w label prefix s))"
proof -
  define r where "r = then_str splitlines (cached_command w
      [''for-each-ref'', ''--format=%(objectname) %(refname)'', prefix] False s)"
  have "extends s (snd r)"
    by (simp add: r_def then_str_cached_command_extends)
  then have "extends s (snd (case r of (Inl e, s1) \<Rightarrow> (Inl e, s1)
                | (Inr refs, s1) \<Rightarrow> (Inr (Some (map strip refs)), s1)))"
    by (cases r) (auto split: sum.splits)
  then show ?thesis
    unfolding for_each_ref_def r_def [symmetric] by (rule except_after_extends)
qed

lemma rev_list_1_extends: "extends s (snd (rev_list_1 w label ref s))"
proof -
  define r where "r = then_str strip (cached_command w [''rev-list'', ''-n'', ''1'', ref, ''--''] False s)"
  have "extends s (snd r)"
    by (simp add: r_def then_str_cached_command_extends)
  then have "extends s (snd (case r of (Inl e, s1) \<Rightarrow> (Inl e, s1)
                | (Inr commit, s1) \<Rightarrow> (Inr (Some commit), s1)))"
    by (cases r) (auto split: sum.splits)
  then show ?thesis
    unfolding rev_list_1_def r_def [symmetric] by (rule except_after_extends)
qed

lemma commit_log_extends: "extends s (snd (commit_log w commit s))"
proof -
  define r where "r = check_output w [''git'', ''--git-dir'', gitrepo s, ''log'', commit] s"
  have "extends s (snd r)"
    by (simp add: r_def check_output_extends)
  then have "extends s (snd (case r of (Inl e, s1) \<Rightarrow> (Inl e, s1)
                | (Inr out, s1) \<Rightarrow> (Inr (Some out), s1)))"
    by (cases r) (auto split: sum.splits)
  then show ?thesis
    unfolding commit_log_def r_def [symmetric] by (rule except_after_extends)
qed

lemma commits_extends: "extends s (snd (commits w y m d s))"
proof (cases "mk_date y m d")
  case (Inl e)
  then show ?thesis by (simp add: commits_def extends_refl)
next
  case (Inr end_date)
  show ?thesis
  proof (cases "minus_one_day end_date")
    case (Inl e)
    with Inr show ?thesis by (simp add: commits_def extends_refl)
  next
    case start: (Inr start)
    obtain sy sm sd where d: "start = Date sy sm sd" by (cases start)
    define r where "r = then_str splitlines (cached_command w
        [''log'', ''--after'', date_str sy sm sd, ''--before'', date_str y m d, ''--pretty=%H'']
        False s)"
    have "extends s (snd r)"
      by (simp add: r_def then_str_cached_command_extends)
    then have "extends s (snd (case r of (Inl e, s1) \<Rightarrow> (Inl e, s1)
                | (Inr cs, s1) \<Rightarrow> (Inr (map strip cs), s1)))"
      by (cases r) (auto split: sum.splits)
    then show ?thesis
      using Inr start d by (simp add: commits_def r_def)
  qed
qed

lemma perform_extends: "extends s (perform w c s)"
  by (cases c)
     (simp_all add: cached_command_extends fill_trees_extends branches_def tags_def
        for_each_ref_extends commits_extends last_commit_of_branch_def commit_of_tag_def
        rev_list_1_extends commit_log_extends commit_parents_def commit_descendants_def
        commit_names_def extends_refl directory_contents_extends is_dir_extends
        file_contents_extends file_size_extends)

lemma perform_all_extends: "extends s (perform_all w cs s)"
proof (induction cs arbitrary: s)
  case Nil
  show ?case by (simp add: extends_refl)
next
  case (Cons c cs)
  have "extends s (perform w c s)" by (rule perform_extends)
  moreover have "extends (perform w c s) (perform_all w cs (perform w c s))" by (rule Cons.IH)
  ultimately show ?case by (simp add: extends_trans)
qed


lemma extends_cache_entry:
  assumes "extends s s'" and "cache s (command_key s lst) = Some v"
  shows "cache s' (command_key s' lst) = Some v"
proof -
  have "gitrepo s' = gitrepo s" and le: "cache s \<subseteq>\<^sub>m cache s'"
    using assms(1) by (simp_all add: extends_def)
  then have k: "command_key s' lst = command_key s lst"
    by (intro command_key_cong)
  have "command_key s lst \<in> dom (cache s)"
    using assms(2) by blast
  with le have "cache s' (command_key s lst) = cache s (command_key s lst)"
    by (simp add: map_le_def)
  with k assms(2) show ?thesis by simp
qed

text \<open>
  Whatever the external program does, a failed listing never reaches the handler of
  \<^verbatim>\<open>directory_contents\<close> as a \<^verbatim>\<open>CalledProcessError\<close>.
\<close>

lemma directory_contents_failure:
  assumes "cache s (command_key s [''ls-tree'', commit, if path \<noteq> [] then path @ ''/'' else path]) = None"
    and "git w (calls s) (command_argv s [''ls-tree'', commit, if path \<noteq> [] then path @ ''/'' else path]) =
           Exited rc out diag"
    and "rc \<noteq> 0"
  shows "fst (directory_contents w commit path s) = Inl AttributeError"
  using assms(2,3)
  by (simp add: directory_contents_def except_CalledProcessError_def then_str_def
        cached_command_miss [OF assms(1)] store_def Let_def)


subsection \<open>The tree model\<close>

lemma split_sep_not_Nil [simp]: "split_sep c s \<noteq> []"
  by (induction s) (auto split: list.splits)













subsection \<open>Construction\<close>

lemma first_year_extends: "extends s (snd (first_year w s))"
proof -
  define r where "r = then_str splitlines (cached_command w
      [''log'', ''--max-parents=0'', ''--date=format:%Y'', ''--pretty=%ad'', ''master''] False s)"
  have "extends s (snd r)"
    by (simp add: r_def then_str_cached_command_extends)
  then have "extends s (snd (case r of (Inl e, s1) \<Rightarrow> (Inl e, s1)
      | (Inr first_years, s1) \<Rightarrow>
          (case sort first_years of
             [] \<Rightarrow> (Inl IndexError, s1)
           | y # ys \<Rightarrow> (py_int y, s1))))"
    by (cases r) (auto split: sum.splits list.splits)
  then show ?thesis
    by (simp add: first_year_def r_def)
qed

lemma last_year_extends: "extends s (snd (last_year w s))"
proof -
  define r where "r = cached_command w
      [''log'', ''-n'', ''1'', ''--date=format:%Y'', ''--pretty=%ad'', ''master''] False s"
  have "extends s (snd r)"
    by (simp add: r_def cached_command_extends)
  then have "extends s (snd (case r of (Inl e, s1) \<Rightarrow> (Inl e, s1)
      | (Inr (PyStr out), s1) \<Rightarrow> (py_int out, s1)
      | (Inr (PyBool b), s1) \<Rightarrow> (Inr (if b then 1 else 0), s1)
      | (Inr PyNone, s1) \<Rightarrow> (Inl TypeError, s1)))"
    by (cases r) (auto split: sum.splits pyval.splits)
  then show ?thesis
    by (simp add: last_year_def r_def)
qed

lemma extends_years: "extends s (s\<lparr>years := ys\<rparr>)"
  by (simp add: extends_def sizes_of_def)

lemma init_uncached:
  assumes "init w repo' False errpath p = (x, s0)"
  shows "\<not> caching s0 \<and> cache s0 = Map.empty"
proof -
  define i where "i = \<lparr>calls = calls p, stderr = stderr p, stdout = stdout p,
                repo = repo', gitrepo = os_path_join repo' ''.git'', errfile = [],
                cache = Map.empty, caching = False, trees = Map.empty,
                sizes = Map.empty, years = []\<rparr>"
  have i: "\<not> caching i" "cache i = Map.empty"
    by (simp_all add: i_def)
  have "extends i s0"
  proof (cases "can_open w errpath")
    case False
    with assms show ?thesis
      by (simp add: init_def i_def [symmetric] Let_def extends_refl)
  next
    case True
    obtain r1 s1 where f: "first_year w i = (r1, s1)" by (cases "first_year w i")
    have e1: "extends i s1" using first_year_extends [of i w] f by simp
    show ?thesis
    proof (cases r1)
      case (Inl e)
      with assms True f e1 show ?thesis
        by (simp add: init_def i_def [symmetric] Let_def)
    next
      case (Inr first_y)
      obtain r2 s2 where l: "last_year w s1 = (r2, s2)" by (cases "last_year w s1")
      have e2: "extends s1 s2" using last_year_extends [of s1 w] l by simp
      have e: "extends i s2" by (rule extends_trans [OF e1 e2])
      show ?thesis
      proof (cases r2)
        case (Inl e')
        with assms True f Inr l e show ?thesis
          by (simp add: init_def i_def [symmetric] Let_def)
      next
        case r2: (Inr last_y)
        have "extends i (s2\<lparr>years := [first_y..last_y]\<rparr>)"
          by (rule extends_trans [OF e extends_years])
        with assms True f Inr l r2 show ?thesis
          by (simp add: init_def i_def [symmetric] Let_def)
      qed
    qed
  qed
  with i show ?thesis by (simp add: extends_def)
qed

subsection \<open>Reading years\<close>

lemma is_digit_bounds: "is_digit c \<longleftrightarrow> 48 \<le> (of_char c :: nat) \<and> (of_char c :: nat) \<le> 57"
  by (simp add: is_digit_def less_eq_char_def)

lemma digit_not_special:
  assumes "is_digit c"
  shows "\<not> is_space c" "c \<noteq> CHR 0x0A" "c \<noteq> CHR 0x0D" "c \<noteq> CHR ''-''" "c \<noteq> CHR ''+''"
  using assms by (auto simp: is_digit_bounds is_space_def)

lemma digit_val_le: "is_digit c \<Longrightarrow> digit_val c \<le> 9"
  unfolding is_digit_bounds digit_val_def by linarith

lemma digit_val_less:
  assumes "is_digit x" and "is_digit y" and "x < y"
  shows "digit_val x + 1 \<le> digit_val y"
  using assms unfolding is_digit_bounds digit_val_def less_char_def by linarith

lemma foldl_digits:
  "foldl (\<lambda>acc c. 10 * acc + digit_val c) a cs =
     a * 10 ^ length cs + foldl (\<lambda>acc c. 10 * acc + digit_val c) 0 cs"
proof (induction cs arbitrary: a)
  case Nil
  show ?case by simp
next
  case (Cons c cs)
  let ?f = "\<lambda>acc c. 10 * acc + digit_val c"
  have 1: "foldl ?f (10 * a + digit_val c) cs =
             (10 * a + digit_val c) * 10 ^ length cs + foldl ?f 0 cs"
    by (rule Cons.IH)
  have 2: "foldl ?f (digit_val c) cs = digit_val c * 10 ^ length cs + foldl ?f 0 cs"
    by (rule Cons.IH)
  have "foldl ?f a (c # cs) = foldl ?f (10 * a + digit_val c) cs"
    by simp
  also have "\<dots> = a * 10 ^ length (c # cs) + (digit_val c * 10 ^ length cs + foldl ?f 0 cs)"
    unfolding 1 by (simp add: algebra_simps)
  also have "\<dots> = a * 10 ^ length (c # cs) + foldl ?f 0 (c # cs)"
    unfolding 2 [symmetric] by simp
  finally show ?case .
qed

lemma digits_val_Cons: "digits_val (c # cs) = digit_val c * 10 ^ length cs + digits_val cs"
  using foldl_digits [of "digit_val c" cs] by (simp add: digits_val_def)

lemma digits_val_bound: "list_all is_digit cs \<Longrightarrow> digits_val cs < 10 ^ length cs"
proof (induction cs)
  case Nil
  show ?case by (simp add: digits_val_def)
next
  case (Cons c cs)
  then have "digit_val c \<le> 9" and "digits_val cs < 10 ^ length cs"
    by (simp_all add: digit_val_le)
  then have "digit_val c * 10 ^ length cs + digits_val cs < 9 * 10 ^ length cs + 10 ^ length cs"
    by (meson add_le_less_mono mult_le_mono1)
  then show ?case
    by (simp add: digits_val_Cons)
qed

lemma digits_val_mono:
  assumes "length a = length b" and "list_all is_digit a" and "list_all is_digit b" and "a \<le> b"
  shows "digits_val a \<le> digits_val b"
  using assms
proof (induction a b rule: list_induct2)
  case Nil
  show ?case by simp
next
  case (Cons x xs y ys)
  from Cons.prems have dx: "is_digit x" and dy: "is_digit y"
    and dxs: "list_all is_digit xs" and dys: "list_all is_digit ys" by simp_all
  from Cons.prems(3) consider "x < y" | "x = y" "xs \<le> ys" by auto
  then show ?case
  proof cases
    case 1
    then have "digit_val x + 1 \<le> digit_val y"
      using dx dy by (intro digit_val_less)
    then have "(digit_val x + 1) * 10 ^ length xs \<le> digit_val y * 10 ^ length xs"
      by (rule mult_le_mono1)
    moreover have "digits_val xs < 10 ^ length xs"
      using dxs by (rule digits_val_bound)
    ultimately have "digit_val x * 10 ^ length xs + digits_val xs \<le> digit_val y * 10 ^ length xs"
      by (simp add: algebra_simps)
    then show ?thesis
      using Cons.hyps by (simp add: digits_val_Cons)
  next
    case 2
    with Cons.IH [OF dxs dys] Cons.hyps show ?thesis
      by (simp add: digits_val_Cons)
  qed
qed

lemma year_of_mono: "year_line a \<Longrightarrow> year_line b \<Longrightarrow> a \<le> b \<Longrightarrow> year_of a \<le> year_of b"
  by (simp add: year_line_def year_of_def digits_val_mono)


lemma splitlines_acc_line:
  assumes "CHR 0x0A \<notin> set l" and "CHR 0x0D \<notin> set l"
  shows "splitlines_acc cur (l @ CHR 0x0A # rest) = (rev cur @ l) # splitlines_acc [] rest"
  using assms by (induction l arbitrary: cur) auto

lemma splitlines_lines:
  assumes "\<forall>l\<in>set ls. CHR 0x0A \<notin> set l \<and> CHR 0x0D \<notin> set l"
  shows "splitlines (concat (map (\<lambda>l. l @ [CHR 0x0A]) ls)) = ls"
  unfolding splitlines_def using assms
  by (induction ls) (simp_all add: splitlines_acc_line)

lemma year_line_no_terminator:
  "year_line l \<Longrightarrow> CHR 0x0A \<notin> set l \<and> CHR 0x0D \<notin> set l"
  by (auto simp: year_line_def list_all_iff dest: digit_not_special)

lemma dropWhile_digits: "l \<noteq> [] \<Longrightarrow> is_digit (hd l) \<Longrightarrow> dropWhile is_space (l @ r) = l @ r"
  by (cases l) (simp_all add: digit_not_special)

lemma strip_year_line:
  assumes "year_line l"
  shows "strip l = l" and "strip (l @ [CHR 0x0A]) = l"
proof -
  from assms have ne: "l \<noteq> []" and d: "list_all is_digit l"
    by (auto simp: year_line_def)
  then have h: "is_digit (hd l)" and t: "is_digit (last l)"
    by (simp_all add: list_all_iff)
  have r: "rev l \<noteq> []" "is_digit (hd (rev l))"
    using ne t by (simp_all add: hd_rev)
  have 1: "dropWhile is_space l = l"
    using dropWhile_digits [OF ne h, of "[]"] by simp
  have 2: "dropWhile is_space (rev l) = rev l"
    using dropWhile_digits [OF r, of "[]"] by simp
  have 3: "dropWhile is_space (l @ [CHR 0x0A]) = l @ [CHR 0x0A]"
    by (rule dropWhile_digits [OF ne h])
  show "strip l = l"
    by (simp add: strip_def 1 2)
  show "strip (l @ [CHR 0x0A]) = l"
    by (simp add: strip_def 3 2 is_space_def)
qed

lemma py_int_year_line:
  assumes "year_line l"
  shows "py_int l = Inr (year_of l)" and "py_int (l @ [CHR 0x0A]) = Inr (year_of l)"
proof -
  from assms have ne: "l \<noteq> []" and d: "list_all is_digit l"
    by (auto simp: year_line_def)
  then have h: "is_digit (hd l)"
    by (simp add: list_all_iff)
  then have s: "hd l \<noteq> CHR ''-''" "hd l \<noteq> CHR ''+''"
    by (simp_all add: digit_not_special)
  show "py_int l = Inr (year_of l)"
    using ne d s by (simp add: py_int_def strip_year_line [OF assms] year_of_def Let_def)
  show "py_int (l @ [CHR 0x0A]) = Inr (year_of l)"
    using ne d s by (simp add: py_int_def strip_year_line [OF assms] year_of_def Let_def)
qed

lemma sort_least:
  assumes "xs \<noteq> []"
  obtains y ys where "sort xs = y # ys" and "y \<in> set xs" and "\<forall>x\<in>set xs. y \<le> x"
proof -
  from assms have "sort xs \<noteq> []"
    by (metis set_empty set_sort)
  then obtain y ys where s: "sort xs = y # ys"
    by (cases "sort xs") auto
  have "set (y # ys) = set xs"
    unfolding s [symmetric] by simp
  moreover have "sorted (y # ys)"
    unfolding s [symmetric] by simp
  ultimately have "y \<in> set xs" and "\<forall>x\<in>set xs. y \<le> x"
    by auto
  with s show thesis by (rule that)
qed

lemma first_year_line:
  assumes "roots \<noteq> []" and "list_all year_line roots" and "sort roots = y # ys"
  shows "year_line y" and "year_of y = Min (year_of ` set roots)"
proof -
  from assms(1) obtain y' ys' where s: "sort roots = y' # ys'" and m: "y' \<in> set roots"
    and le: "\<forall>x\<in>set roots. y' \<le> x"
    by (rule sort_least)
  from s assms(3) have y: "y' = y" by simp
  from m assms(2) y show yl: "year_line y"
    by (simp add: list_all_iff)
  have "year_of y \<le> year_of x" if "x \<in> set roots" for x
  proof -
    from that assms(2) have "year_line x" by (simp add: list_all_iff)
    moreover from that le y have "y \<le> x" by simp
    ultimately show ?thesis using yl by (simp add: year_of_mono)
  qed
  then have a: "\<And>v. v \<in> year_of ` set roots \<Longrightarrow> year_of y \<le> v"
    by auto
  have b: "year_of y \<in> year_of ` set roots"
    using m y by simp
  have "Min (year_of ` set roots) = year_of y"
    by (rule Min_eqI) (simp_all add: a b)
  then show "year_of y = Min (year_of ` set roots)"
    by simp
qed

lemma year_keys_differ:
  "join '' '' (first_year_argv r) \<noteq> join '' '' (last_year_argv r)"
  by (simp add: first_year_argv_def last_year_argv_def)


lemmas eval_defs =
  init_def first_year_def last_year_def then_str_def cached_command_def check_output_def
  store_def command_argv_def redirect_def Let_def demo_world_def os_path_join_def
  splitlines_def py_int_def strip_def is_space_def is_digit_def digits_val_def digit_val_def

lemma demo_init_fst:
  "fst (init demo_world ''r'' c ''giterr.log'' \<lparr>calls = [], stderr = [], stdout = []\<rparr>) = Inr ()"
  by (cases c) (simp_all add: eval_defs)

lemma demo_init_years:
  "years (snd (init demo_world ''r'' c ''giterr.log'' \<lparr>calls = [], stderr = [], stdout = []\<rparr>)) =
     [2015, 2016, 2017, 2018, 2019, 2020]"
  by (cases c) (simp_all add: eval_defs upto.simps)

lemma demo_init:
  "init demo_world ''r'' c ''giterr.log'' \<lparr>calls = [], stderr = [], stdout = []\<rparr> =
     (Inr (), snd (init demo_world ''r'' c ''giterr.log'' \<lparr>calls = [], stderr = [], stdout = []\<rparr>))"
  by (rule prod_eqI) (simp_all add: demo_init_fst)


subsection \<open>Commits of a day\<close>

text \<open>
  What \<^verbatim>\<open>commits\<close> asks and returns. The query names the day before and the day itself
  as dates without a time, and no branch; which commits the external program then
  prints is its own matter.
\<close>

lemma date_str_2020_03: "date_str 2020 3 14 = ''2020-03-14''" "date_str 2020 3 15 = ''2020-03-15''"
  by code_simp+

lemma commits_2020_03_15:
  assumes "cache s (command_key s [''log'', ''--after'', ''2020-03-14'', ''--before'',
                                    ''2020-03-15'', ''--pretty=%H'']) = None"
    and "git w (calls s) (command_argv s [''log'', ''--after'', ''2020-03-14'', ''--before'',
                                    ''2020-03-15'', ''--pretty=%H'']) = Exited 0 out diag"
  shows "fst (commits w 2020 3 15 s) = Inr (map strip (splitlines out))"
    and "calls (snd (commits w 2020 3 15 s)) =
           calls s @ [[''git'', ''--git-dir'', gitrepo s, ''log'', ''--after'', ''2020-03-14'',
                       ''--before'', ''2020-03-15'', ''--pretty=%H'']]"
proof -
  have d: "mk_date 2020 3 15 = Inr (Date 2020 3 15)"
    by (simp add: mk_date_def days_in_month_def)
  have c: "commits w 2020 3 15 s =
     (case then_str splitlines
             (cached_command w [''log'', ''--after'', ''2020-03-14'', ''--before'',
                                ''2020-03-15'', ''--pretty=%H''] False s) of
        (Inl e, s1) \<Rightarrow> (Inl e, s1)
      | (Inr cs, s1) \<Rightarrow> (Inr (map strip cs), s1))"
    by (simp add: commits_def d date_str_2020_03)
  show "fst (commits w 2020 3 15 s) = Inr (map strip (splitlines out))"
    using assms(2) by (simp add: c then_str_def cached_command_miss [OF assms(1)] store_def)
  show "calls (snd (commits w 2020 3 15 s)) =
           calls s @ [[''git'', ''--git-dir'', gitrepo s, ''log'', ''--after'', ''2020-03-14'',
                       ''--before'', ''2020-03-15'', ''--pretty=%H'']]"
    using assms(2)
    by (simp add: c then_str_def cached_command_miss [OF assms(1)] store_def)
       (simp add: command_argv_def)
qed

subsection \<open>The example repository\<close>

lemma filter_is_Written_redirect [simp]:
  "filter is_Written (redirect diag sink) = filter is_Written sink"
  by (simp add: redirect_def)

lemma demo_miss: "cache (demo_state c) k = None"
  by (simp add: demo_state_def)

lemma demo_ls_tree_v1:
  "cached_command demo_world [''ls-tree'', ''v1'', []] False (demo_state True) =
     (Inr (PyStr (''040000 tree 4b825d'' @ [CHR 0x09] @ ''src'' @ [CHR 0x0A] @
                     ''100644 blob e69de2'' @ [CHR 0x09] @ ''README'' @ [CHR 0x0A])),
      snd (cached_command demo_world [''ls-tree'', ''v1'', []] False (demo_state True)))"
  by (rule prod_eqI)
     (simp_all add: cached_command_def check_output_def store_def command_argv_def
        redirect_def Let_def demo_world_def demo_state_def)



text \<open>
  A path with a space is not read back: \<^verbatim>\<open>cont.split(" ")[-1]\<close> is the last word of the
  line, so the directory \<^verbatim>\<open>my dir\<close> is registered as \<^verbatim>\<open>dir\<close>, and \<^verbatim>\<open>is_dir\<close> then
  denies \<^verbatim>\<open>my dir\<close> and accepts \<^verbatim>\<open>dir\<close>.
\<close>

lemma spaced_path_registered_by_last_word:
  "line_path (entry_line (Entry ''040000'' ''tree'' ''4b825d'' ''my dir'')) = ''dir''"
  "trees (fills ''v1'' [map entry_line spaced_listing] (demo_state True)) ''v1'' =
     Some {[], ''dir''}"
  "fst (is_dir demo_world ''v1'' ''my dir''
          (fills ''v1'' [map entry_line spaced_listing] (demo_state True))) = Inr False"
  "fst (is_dir demo_world ''v1'' ''dir''
          (fills ''v1'' [map entry_line spaced_listing] (demo_state True))) = Inr True"
  by (simp_all add: is_dir_def fill_trees_def known_dirs_def line_type_def line_path_def
        ls_tree_line_def spaced_listing_def demo_state_def Let_def insert_commute)


subsection \<open>File sizes\<close>

text \<open>
  On a pair (commit, path) with no stored size \<^verbatim>\<open>file_size\<close> fetches the content once.
  When the fetch succeeds, the length (0 for empty content) is returned and stored, and
  every later call, whatever method calls come between, returns the same integer and
  leaves the state, with its invocation log, as it is. When the fetch completes with a
  non-zero return code, the call raises and stores nothing.
\<close>

lemma file_size_once:
  assumes "sizes_of s commit path = None"
    and "git w (calls s) [''git'', ''--git-dir'', gitrepo s, ''show'', commit @ '':'' @ path] =
           Exited rc out diag"
  shows "(rc = 0 \<longrightarrow>
            fst (file_size w commit path s) = Inr (int (length out)) \<and>
            calls (snd (file_size w commit path s)) =
              calls s @ [[''git'', ''--git-dir'', gitrepo s, ''show'', commit @ '':'' @ path]] \<and>
            (\<forall>cs. file_size w commit path (perform_all w cs (snd (file_size w commit path s))) =
                    (Inr (int (length out)), perform_all w cs (snd (file_size w commit path s))))) \<and>
         (rc \<noteq> 0 \<longrightarrow>
            fst (file_size w commit path s) =
              Inl (CalledProcessError rc
                     [''git'', ''--git-dir'', gitrepo s, ''show'', commit @ '':'' @ path]) \<and>
            sizes_of (snd (file_size w commit path s)) commit path = None)"
proof -
  let ?argv = "[''git'', ''--git-dir'', gitrepo s, ''show'', commit @ '':'' @ path]"
  define s1 where "s1 = (if sizes s commit = None then s\<lparr>sizes := (sizes s)(commit \<mapsto> Map.empty)\<rparr> else s)"
  have n1: "sizes_of s1 commit path = None"
    using assms(1) by (simp add: s1_def sizes_of_seed)
  have g1: "git w (calls s1) [''git'', ''--git-dir'', gitrepo s1, ''show'', commit @ '':'' @ path] =
              Exited rc out diag"
    using assms(2) by (simp add: s1_def)
  have c1: "calls s1 = calls s" "gitrepo s1 = gitrepo s"
    by (simp_all add: s1_def)
  have fc: "file_contents w commit path s1 =
     (if rc = 0 then Inr out else Inl (CalledProcessError rc ?argv),
      s1\<lparr>calls := calls s @ [?argv], errfile := redirect diag (errfile s1)\<rparr>)"
    using check_output_Exited [OF g1] c1 by (simp add: file_contents_def)
  have fs: "file_size w commit path s =
     (case file_contents w commit path s1 of
        (Inl e, s2) \<Rightarrow> (Inl e, s2)
      | (Inr contents, s2) \<Rightarrow>
          (Inr (int (length contents)),
           s2\<lparr>sizes := (sizes s2)(commit \<mapsto> (sizes_of s2 commit)(path \<mapsto> int (length contents)))\<rparr>))"
    using file_size_miss [OF assms(1), of w] by (simp add: s1_def Let_def)
  show ?thesis
  proof (cases "rc = 0")
    case True
    have r: "fst (file_size w commit path s) = Inr (int (length out))"
      using True by (simp add: fs fc)
    have l: "calls (snd (file_size w commit path s)) = calls s @ [?argv]"
      using True by (simp add: fs fc)
    have z: "sizes_of (snd (file_size w commit path s)) commit path = Some (int (length out))"
      using True by (simp add: fs fc sizes_of_def)
    have "file_size w commit path (perform_all w cs (snd (file_size w commit path s))) =
            (Inr (int (length out)), perform_all w cs (snd (file_size w commit path s)))" for cs
    proof (rule file_size_hit)
      have "extends (snd (file_size w commit path s))
              (perform_all w cs (snd (file_size w commit path s)))"
        by (rule perform_all_extends)
      with z show "sizes_of (perform_all w cs (snd (file_size w commit path s))) commit path =
                     Some (int (length out))"
        by (simp add: extends_def)
    qed
    with True r l show ?thesis by simp
  next
    case False
    have r: "fst (file_size w commit path s) = Inl (CalledProcessError rc ?argv)"
      using False by (simp add: fs fc)
    have z: "sizes_of (snd (file_size w commit path s)) commit path = None"
      using False n1 by (simp add: fs fc sizes_of_def)
    from False r z show ?thesis by simp
  qed
qed

lemma file_size_once_demo:
  "file_size demo_world ''v1'' ''README''
     (snd (file_size demo_world ''v1'' ''README'' (demo_state True))) =
   (Inr 5, snd (file_size demo_world ''v1'' ''README'' (demo_state True)))"
proof -
  have n: "sizes_of (demo_state True) ''v1'' ''README'' = None"
    by (simp add: sizes_of_def demo_state_def)
  have g: "git demo_world (calls (demo_state True))
             [''git'', ''--git-dir'', gitrepo (demo_state True), ''show'', ''v1'' @ '':'' @ ''README''] =
           Exited 0 ''hello'' []"
    by (simp add: demo_world_def demo_state_def)
  from file_size_once [OF n g] have
    "\<forall>cs. file_size demo_world ''v1'' ''README''
            (perform_all demo_world cs (snd (file_size demo_world ''v1'' ''README'' (demo_state True)))) =
          (Inr (int (length ''hello'')),
           perform_all demo_world cs (snd (file_size demo_world ''v1'' ''README'' (demo_state True))))"
    by simp
  from this [rule_format, of "[]"] show ?thesis by simp
qed

section \<open>Properties of the specification\<close>

text \<open>
  C1. With caching enabled, when a call of \<^verbatim>\<open>cached_command\<close> has returned a value, a
  second call with the same argument list and the same mode returns that value and
  leaves the state as it is, so the external program is not invoked again: the log of
  invocations after the first call holds at most one more entry than before it. The same
  holds when any other method calls come between the two.
\<close>

theorem cache_idempotence:
  assumes "caching s" and "cached_command w lst b s = (Inr v, s1)"
  shows "cached_command w lst b s1 = (Inr v, s1) \<and>
         (calls s1 = calls s \<or> calls s1 = calls s @ [command_argv s lst]) \<and>
         (\<forall>cs. cached_command w lst b (perform_all w cs s1) = (Inr v, perform_all w cs s1))"
proof -
  have e: "extends s s1"
    using cached_command_extends [of s w lst b] assms(2) by simp
  have "cache s1 (command_key s lst) = Some v"
    using assms by (rule cached_command_stores)
  moreover have "command_key s1 lst = command_key s lst"
    using e by (intro command_key_cong) (simp add: extends_def)
  ultimately have k: "cache s1 (command_key s1 lst) = Some v" by simp
  then have 1: "cached_command w lst b s1 = (Inr v, s1)"
    by (rule cached_command_hit)
  have 2: "calls s1 = calls s \<or> calls s1 = calls s @ [command_argv s lst]"
    using cached_command_calls [of w lst b s] assms(2) by (simp split: if_splits)
  have 3: "cached_command w lst b (perform_all w cs s1) = (Inr v, perform_all w cs s1)" for cs
    by (rule cached_command_hit) (rule extends_cache_entry [OF perform_all_extends k])
  from 1 2 3 show ?thesis by blast
qed

theorem cache_idempotence_witness:
  "cached_command demo_world [''ls-tree'', ''v1'', []] False
     (snd (cached_command demo_world [''ls-tree'', ''v1'', []] False (demo_state True))) =
   (Inr (PyStr (''040000 tree 4b825d'' @ [CHR 0x09] @ ''src'' @ [CHR 0x0A] @
                     ''100644 blob e69de2'' @ [CHR 0x09] @ ''README'' @ [CHR 0x0A])),
    snd (cached_command demo_world [''ls-tree'', ''v1'', []] False (demo_state True)))"
proof -
  have c: "caching (demo_state True)"
    by (simp add: demo_state_def)
  from cache_idempotence [OF c demo_ls_tree_v1] show ?thesis by blast
qed

text \<open>
  C2. A query that is not cached and completes with a non-zero return code. In boolean
  mode the call returns \<^verbatim>\<open>False\<close>, writes nothing to the error stream of the process and
  writes no message of its own to the error file; the error file still receives the
  diagnostic output of the external program, which \<^verbatim>\<open>stderr=self._errfile\<close> redirects
  there in both modes. In content mode the call returns \<^verbatim>\<open>None\<close> and writes the message
  \<^verbatim>\<open>Error calling <command>: <str(e)>\<close> to the error stream and, after the diagnostic
  output, to the error file.
\<close>

theorem failure_modes:
  assumes "cache s (command_key s lst) = None"
    and "git w (calls s) (command_argv s lst) = Exited rc out diag"
    and "rc \<noteq> 0"
  shows "fst (cached_command w lst True s) = Inr (PyBool False) \<and>
         stderr (snd (cached_command w lst True s)) = stderr s \<and>
         errfile (snd (cached_command w lst True s)) = redirect diag (errfile s) \<and>
         filter is_Written (errfile (snd (cached_command w lst True s))) =
           filter is_Written (errfile s) \<and>
         fst (cached_command w lst False s) = Inr PyNone \<and>
         stderr (snd (cached_command w lst False s)) =
           stderr s @ [''Error calling '' @ command_key s lst @ '': '' @
                        str_error w rc (command_argv s lst)] \<and>
         errfile (snd (cached_command w lst False s)) =
           redirect diag (errfile s) @
             [Written (''Error calling '' @ command_key s lst @ '': '' @
                        str_error w rc (command_argv s lst))]"
  using assms(2,3)
  by (simp add: cached_command_miss [OF assms(1)] store_def error_message_def)

theorem failure_modes_witness:
  "fst (cached_command demo_world [''cat-file'', ''-t'', ''v9:''] True (demo_state True)) =
     Inr (PyBool False) \<and>
   stderr (snd (cached_command demo_world [''cat-file'', ''-t'', ''v9:''] True (demo_state True))) = [] \<and>
   fst (cached_command demo_world [''cat-file'', ''-t'', ''v9:''] False (demo_state True)) =
     Inr PyNone \<and>
   stderr (snd (cached_command demo_world [''cat-file'', ''-t'', ''v9:''] False (demo_state True))) =
     [''Error calling git --git-dir r/.git cat-file -t v9:: Command returned non-zero exit status'']"
proof -
  have g: "git demo_world (calls (demo_state True))
             (command_argv (demo_state True) [''cat-file'', ''-t'', ''v9:'']) =
           Exited 128 [] ''fatal: bad object''"
    by (simp add: demo_world_def demo_state_def command_argv_def)
  have n: "(128::int) \<noteq> 0" by simp
  from failure_modes [OF demo_miss g n] show ?thesis
    by (simp add: demo_state_def demo_world_def command_key_def command_argv_def)
qed

text \<open>
  As the claim is worded nothing would reach the error file in boolean mode. In the
  example repository the failing query leaves the diagnostic output of the external
  program there.
\<close>

theorem boolean_failure_reaches_sink:
  "errfile (demo_state True) = [] \<and>
   fst (cached_command demo_world [''cat-file'', ''-t'', ''v9:''] True (demo_state True)) =
     Inr (PyBool False) \<and>
   errfile (snd (cached_command demo_world [''cat-file'', ''-t'', ''v9:''] True (demo_state True))) =
     [ToolDiag ''fatal: bad object'']"
  by (simp add: cached_command_def check_output_def store_def command_argv_def redirect_def
        Let_def demo_world_def demo_state_def)







text \<open>
  C6. Construction computes the year range from two queries on \<^verbatim>\<open>master\<close>. When the
  error file opens, the query for the commits without parents prints one four-digit year
  per line and the query for the latest commit prints its four-digit year, construction
  succeeds and \<^verbatim>\<open>self.years\<close> is the ascending list from the least of the root years to
  the year of the latest commit, both included.
\<close>

theorem year_range:
  assumes "can_open w errpath"
    and "git w (calls p) (first_year_argv repo') =
           Exited 0 (concat (map (\<lambda>l. l @ [CHR 0x0A]) roots)) d1"
    and "git w (calls p @ [first_year_argv repo']) (last_year_argv repo') =
           Exited 0 (latest @ [CHR 0x0A]) d2"
    and "roots \<noteq> []" and "list_all year_line roots" and "year_line latest"
  shows "fst (init w repo' c errpath p) = Inr () \<and>
         years (snd (init w repo' c errpath p)) = [Min (year_of ` set roots)..year_of latest]"
proof -
  define i where "i = \<lparr>calls = calls p, stderr = stderr p, stdout = stdout p,
                repo = repo', gitrepo = os_path_join repo' ''.git'', errfile = [],
                cache = Map.empty, caching = c, trees = Map.empty,
                sizes = Map.empty, years = []\<rparr>"
  let ?lst1 = "[''log'', ''--max-parents=0'', ''--date=format:%Y'', ''--pretty=%ad'', ''master'']"
  let ?lst2 = "[''log'', ''-n'', ''1'', ''--date=format:%Y'', ''--pretty=%ad'', ''master'']"
  let ?out1 = "concat (map (\<lambda>l. l @ [CHR 0x0A]) roots)"
  have a1: "command_argv i ?lst1 = first_year_argv repo'"
    by (simp add: command_argv_def first_year_argv_def i_def)
  have m1: "cache i (command_key i ?lst1) = None"
    by (simp add: i_def)
  have o1: "git w (calls i) (command_argv i ?lst1) = Exited 0 ?out1 d1"
    using assms(2) by (simp add: a1) (simp add: i_def)
  define s1 where "s1 = snd (cached_command w ?lst1 False i)"
  have c1: "cached_command w ?lst1 False i = (Inr (PyStr ?out1), s1)"
    by (rule prod_eqI) (simp_all add: s1_def cached_command_miss [OF m1] o1 store_def)
  have lines: "splitlines ?out1 = roots"
    using assms(5) by (intro splitlines_lines) (simp add: list_all_iff year_line_no_terminator)
  obtain y ys where srt: "sort roots = y # ys"
    using assms(4) by (rule sort_least)
  have y: "year_line y" "year_of y = Min (year_of ` set roots)"
    using first_year_line [OF assms(4,5) srt] by simp_all
  have f: "first_year w i = (Inr (Min (year_of ` set roots)), s1)"
    using y by (simp add: first_year_def then_str_def c1 lines srt py_int_year_line)
  have s1_calls: "calls s1 = calls p @ [first_year_argv repo']"
    by (simp add: s1_def cached_command_calls m1 a1) (simp add: i_def)
  have "extends i s1"
    unfolding s1_def by (rule cached_command_extends)
  then have "gitrepo s1 = gitrepo i"
    by (simp add: extends_def)
  then have s1_repo: "gitrepo s1 = os_path_join repo' ''.git''"
    by (simp add: i_def)
  have a2: "command_argv s1 ?lst2 = last_year_argv repo'"
    by (simp add: command_argv_def last_year_argv_def s1_repo)
  have s1_cache: "cache s1 = (if c then [command_key i ?lst1 \<mapsto> PyStr ?out1] else Map.empty)"
    by (simp add: s1_def cached_command_miss [OF m1] o1 store_def) (simp add: i_def)
  have k: "command_key s1 ?lst2 \<noteq> command_key i ?lst1"
    using year_keys_differ [of repo'] by (simp add: command_key_def a1 a2)
  have m2: "cache s1 (command_key s1 ?lst2) = None"
    using k by (simp add: s1_cache)
  have o2: "git w (calls s1) (command_argv s1 ?lst2) = Exited 0 (latest @ [CHR 0x0A]) d2"
    using assms(3) by (simp add: a2 s1_calls)
  define s2 where "s2 = snd (cached_command w ?lst2 False s1)"
  have c2: "cached_command w ?lst2 False s1 = (Inr (PyStr (latest @ [CHR 0x0A])), s2)"
    by (rule prod_eqI) (simp_all add: s2_def cached_command_miss [OF m2] o2 store_def)
  have l: "last_year w s1 = (Inr (year_of latest), s2)"
    using assms(6) by (simp add: last_year_def c2 py_int_year_line)
  have "init w repo' c errpath p =
          (Inr (), s2\<lparr>years := [Min (year_of ` set roots)..year_of latest]\<rparr>)"
    using assms(1) by (simp add: init_def i_def [symmetric] Let_def f l)
  then show ?thesis by simp
qed

theorem year_range_witness:
  "years (snd (init demo_world ''r'' True ''giterr.log''
                 \<lparr>calls = [], stderr = [], stdout = []\<rparr>)) =
     [2015, 2016, 2017, 2018, 2019, 2020]"
proof -
  have o: "can_open demo_world ''giterr.log''"
    by (simp add: demo_world_def)
  have g1: "git demo_world (calls \<lparr>calls = [], stderr = [], stdout = []\<rparr>) (first_year_argv ''r'') =
              Exited 0 (concat (map (\<lambda>l. l @ [CHR 0x0A]) [''2016'', ''2015''])) []"
    by (simp add: demo_world_def first_year_argv_def os_path_join_def)
  have g2: "git demo_world (calls \<lparr>calls = [], stderr = [], stdout = []\<rparr> @ [first_year_argv ''r''])
              (last_year_argv ''r'') = Exited 0 (''2020'' @ [CHR 0x0A]) []"
    by (simp add: demo_world_def last_year_argv_def os_path_join_def)
  have n: "[''2016'', ''2015''] \<noteq> []"
    by simp
  have r: "list_all year_line [''2016'', ''2015'']"
    by (simp add: year_line_def is_digit_def)
  have t: "year_line ''2020''"
    by (simp add: year_line_def is_digit_def)
  have v: "year_of ''2016'' = 2016" "year_of ''2015'' = 2015" "year_of ''2020'' = 2020"
    by (simp_all add: year_of_def digits_val_def digit_val_def)
  from year_range [OF o g1 g2 n r t, of True] show ?thesis
    by (simp add: v upto.simps)
qed

text \<open>
  C7. \<^verbatim>\<open>file_size\<close> is meant to give 0 when the content cannot be fetched: it starts
  from \<^verbatim>\<open>size = 0\<close> and takes the length only \<^verbatim>\<open>if contents\<close>, a test that matters for
  \<^verbatim>\<open>None\<close> alone. But \<^verbatim>\<open>file_contents\<close> never returns \<^verbatim>\<open>None\<close>: unlike \<^verbatim>\<open>commit_log\<close>
  it does not catch the \<^verbatim>\<open>CalledProcessError\<close> of \<^verbatim>\<open>check_output\<close>, and \<^verbatim>\<open>file_size\<close>
  does not either. In the example repository the commit \<^verbatim>\<open>v9\<close> does not exist: the fetch
  fails, \<^verbatim>\<open>file_size\<close> raises instead of returning 0, and no size is stored.
\<close>

theorem file_size_failed_fetch:
  "fst (file_size demo_world ''v9'' ''README'' (demo_state True)) =
     Inl (CalledProcessError 128 [''git'', ''--git-dir'', ''r/.git'', ''show'', ''v9:README'']) \<and>
   fst (file_size demo_world ''v9'' ''README'' (demo_state True)) \<noteq> Inr 0 \<and>
   sizes_of (snd (file_size demo_world ''v9'' ''README'' (demo_state True))) ''v9'' ''README'' = None"
  by (simp add: file_size_def file_contents_def check_output_def sizes_of_def Let_def
        demo_world_def demo_state_def)

text \<open>
  C8. When the \<^verbatim>\<open>ls-tree\<close> query of \<^verbatim>\<open>directory_contents\<close> completes with a non-zero
  return code, \<^verbatim>\<open>cached_command\<close> logs the error and returns \<^verbatim>\<open>None\<close>; the call
  \<^verbatim>\<open>None.splitlines()\<close> then raises \<^verbatim>\<open>AttributeError\<close>, which the handler
  \<^verbatim>\<open>except CalledProcessError\<close> does not catch. The caller gets the exception, not the
  empty list. Here on the commit \<^verbatim>\<open>v9\<close>, which the example repository does not have.
\<close>

theorem directory_contents_raises:
  "fst (directory_contents demo_world ''v9'' ''src'' (demo_state True)) = Inl AttributeError \<and>
   fst (directory_contents demo_world ''v9'' ''src'' (demo_state True)) \<noteq> Inr [] \<and>
   stderr (snd (directory_contents demo_world ''v9'' ''src'' (demo_state True))) =
     [''Error calling git --git-dir r/.git ls-tree v9 src/: Command returned non-zero exit status''] \<and>
   stdout (snd (directory_contents demo_world ''v9'' ''src'' (demo_state True))) = []"
  by (simp add: directory_contents_def except_CalledProcessError_def then_str_def
        cached_command_def check_output_def store_def command_argv_def redirect_def
        error_message_def Let_def demo_world_def demo_state_def)

text \<open>
  C9. A facade constructed with caching disabled never stores a result: after any
  sequence of method calls the cache is empty, and two identical calls of
  \<^verbatim>\<open>cached_command\<close> made then each hand the query to the external program, so the
  invocation log grows by that argument vector twice and the cache is still empty.
\<close>

theorem cache_bypass:
  assumes "init w repo' False errpath p = (Inr (), s0)"
  shows "cache (perform_all w cs s0) = Map.empty \<and>
         calls (snd (cached_command w lst b (perform_all w cs s0))) =
           calls (perform_all w cs s0) @ [command_argv s0 lst] \<and>
         calls (snd (cached_command w lst b
                  (snd (cached_command w lst b (perform_all w cs s0))))) =
           calls (perform_all w cs s0) @ [command_argv s0 lst, command_argv s0 lst] \<and>
         cache (snd (cached_command w lst b
                  (snd (cached_command w lst b (perform_all w cs s0))))) = Map.empty"
proof -
  define s where "s = perform_all w cs s0"
  define s1 where "s1 = snd (cached_command w lst b s)"
  define s2 where "s2 = snd (cached_command w lst b s1)"
  have i: "\<not> caching s0 \<and> cache s0 = Map.empty"
    using assms by (rule init_uncached)
  have a: "\<not> caching s \<and> cache s = Map.empty \<and> gitrepo s = gitrepo s0"
    using i perform_all_extends [of s0 w cs] by (simp add: s_def extends_def)
  have b: "\<not> caching s1 \<and> cache s1 = Map.empty \<and> gitrepo s1 = gitrepo s"
    using a cached_command_extends [of s w lst b] by (simp add: s1_def extends_def)
  have c: "\<not> caching s2 \<and> cache s2 = Map.empty \<and> gitrepo s2 = gitrepo s1"
    using b cached_command_extends [of s1 w lst b] by (simp add: s2_def extends_def)
  have v: "command_argv s lst = command_argv s0 lst" "command_argv s1 lst = command_argv s0 lst"
    using a b by (simp_all add: command_argv_def)
  have 1: "calls s1 = calls s @ [command_argv s0 lst]"
    using a v by (simp add: s1_def cached_command_calls)
  have 2: "calls s2 = calls s1 @ [command_argv s0 lst]"
    using b v by (simp add: s2_def cached_command_calls)
  from a 1 2 c show ?thesis
    by (simp add: s_def [symmetric] s1_def [symmetric] s2_def [symmetric])
qed

theorem cache_bypass_witness:
  "calls (snd (cached_command demo_world [''ls-tree'', ''v1'', []] False
          (snd (cached_command demo_world [''ls-tree'', ''v1'', []] False
             (perform_all demo_world [Tags]
                (snd (init demo_world ''r'' False ''giterr.log''
                        \<lparr>calls = [], stderr = [], stdout = []\<rparr>))))))) =
   calls (perform_all demo_world [Tags]
            (snd (init demo_world ''r'' False ''giterr.log''
                    \<lparr>calls = [], stderr = [], stdout = []\<rparr>))) @
     [[''git'', ''--git-dir'', ''r/.git'', ''ls-tree'', ''v1'', []],
      [''git'', ''--git-dir'', ''r/.git'', ''ls-tree'', ''v1'', []]]"
proof -
  have g: "gitrepo (snd (init demo_world ''r'' False ''giterr.log''
                        \<lparr>calls = [], stderr = [], stdout = []\<rparr>)) = ''r/.git''"
    by (simp add: eval_defs)
  from cache_bypass [OF demo_init [of False], where cs = "[Tags]"
      and lst = "[''ls-tree'', ''v1'', []]" and b = False]
  show ?thesis
    by (simp add: command_argv_def g)
qed

text \<open>
  C10. \<^verbatim>\<open>file_contents\<close> hands its query to the external program on every call: the
  invocation is logged whatever the cache holds, the result does not depend on the cache
  or on the caching flag, and the cache is left as it was. A non-zero return code comes
  back to the caller as the \<^verbatim>\<open>CalledProcessError\<close> itself; nothing is printed and the
  facade writes no message.
\<close>

theorem file_contents_uncached:
  "calls (snd (file_contents w commit path s)) =
     calls s @ [[''git'', ''--git-dir'', gitrepo s, ''show'', commit @ '':'' @ path]] \<and>
   cache (snd (file_contents w commit path s)) = cache s \<and>
   fst (file_contents w commit path (s\<lparr>cache := m, caching := c\<rparr>)) =
     fst (file_contents w commit path s) \<and>
   (\<forall>rc out diag.
      git w (calls s) [''git'', ''--git-dir'', gitrepo s, ''show'', commit @ '':'' @ path] =
        Exited rc out diag \<and> rc \<noteq> 0 \<longrightarrow>
      fst (file_contents w commit path s) =
        Inl (CalledProcessError rc [''git'', ''--git-dir'', gitrepo s, ''show'', commit @ '':'' @ path]) \<and>
      stderr (snd (file_contents w commit path s)) = stderr s \<and>
      stdout (snd (file_contents w commit path s)) = stdout s \<and>
      filter is_Written (errfile (snd (file_contents w commit path s))) =
        filter is_Written (errfile s))"
proof -
  let ?argv = "[''git'', ''--git-dir'', gitrepo s, ''show'', commit @ '':'' @ path]"
  have 1: "calls (snd (file_contents w commit path s)) = calls s @ [?argv]"
    by (cases "git w (calls s) ?argv")
       (simp_all add: file_contents_def check_output_Exited check_output_NotLaunched)
  have 2: "cache (snd (file_contents w commit path s)) = cache s"
    by (cases "git w (calls s) ?argv")
       (simp_all add: file_contents_def check_output_Exited check_output_NotLaunched)
  have 3: "fst (file_contents w commit path (s\<lparr>cache := m, caching := c\<rparr>)) =
             fst (file_contents w commit path s)"
    by (cases "git w (calls s) ?argv")
       (simp_all add: file_contents_def check_output_def Let_def)
  have 4: "fst (file_contents w commit path s) = Inl (CalledProcessError rc ?argv) \<and>
           stderr (snd (file_contents w commit path s)) = stderr s \<and>
           stdout (snd (file_contents w commit path s)) = stdout s \<and>
           filter is_Written (errfile (snd (file_contents w commit path s))) =
             filter is_Written (errfile s)"
    if "git w (calls s) ?argv = Exited rc out diag \<and> rc \<noteq> 0" for rc out diag
    using that by (simp add: file_contents_def check_output_Exited)
  from 1 2 3 4 show ?thesis by blast
qed

theorem file_contents_uncached_witness:
  "fst (file_contents demo_world ''v9'' ''README''
          ((demo_state True)\<lparr>cache := [''git --git-dir r/.git show v9:README'' \<mapsto> PyStr ''old''],
                                caching := True\<rparr>)) =
     Inl (CalledProcessError 128 [''git'', ''--git-dir'', ''r/.git'', ''show'', ''v9:README''])"
proof -
  have g: "git demo_world (calls (demo_state True))
             [''git'', ''--git-dir'', gitrepo (demo_state True), ''show'', ''v9'' @ '':'' @ ''README''] =
           Exited 128 [] ''fatal: bad object'' \<and> (128::int) \<noteq> 0"
    by (simp add: demo_world_def demo_state_def)
  from file_contents_uncached [where w = demo_world and commit = "''v9''"
         and path = "''README''" and s = "demo_state True" and c = True
         and m = "[''git --git-dir r/.git show v9:README'' \<mapsto> PyStr ''old'']"] g
  show ?thesis
    by (simp add: demo_state_def)
qed


end
